theory Spec2Isabelle
  imports Main "HOL-Library.AList"
begin

section \<open>Values, exceptions and the transport\<close>

text \<open>
  The library moves decoded JSON documents between the server and its callers, so the
  model has one type of JSON values. A Python dict is an association list in insertion
  order: lookup is \<open>map_of\<close>, item assignment is \<open>AList.update\<close> (replace in place,
  or append a new key). Numbers that are not integers are not represented; the code
  never computes with a number, it only passes it on. A string is a list of characters;
  the code compares strings, joins them and scans them, and never counts or orders
  their characters.
\<close>

datatype json =
    JNull
  | JBool bool
  | JInt int
  | JString string
  | JArray "json list"
  | JObject "(string \<times> json) list"

text \<open>The exceptions the modelled code can end with.\<close>

datatype exn =
    KeyError string
  | TypeError
  | IndexError
  | ValueError
  | RequestException
  | OSError

text \<open>\<open>d[k]\<close> for a string key: only a dict can be subscripted by a string.\<close>

definition subscript :: "json \<Rightarrow> string \<Rightarrow> exn + json" where
  "subscript d k =
     (case d of
        JObject kvs \<Rightarrow> (case map_of kvs k of None \<Rightarrow> Inl (KeyError k) | Some v \<Rightarrow> Inr v)
      | _ \<Rightarrow> Inl TypeError)"

text \<open>\<open>d[k] = v\<close> on a decoded value.\<close>

definition setitem :: "json \<Rightarrow> string \<Rightarrow> json \<Rightarrow> exn + json" where
  "setitem d k v =
     (case d of JObject kvs \<Rightarrow> Inr (JObject (AList.update k v kvs)) | _ \<Rightarrow> Inl TypeError)"

text \<open>Lookup in a dict of the program itself (string keys).\<close>

definition getitem :: "(string \<times> 'a) list \<Rightarrow> string \<Rightarrow> exn + 'a" where
  "getitem kvs k = (case map_of kvs k of None \<Rightarrow> Inl (KeyError k) | Some v \<Rightarrow> Inr v)"

text \<open>
  \<open>for x in v\<close>: a list yields its elements, a dict its keys, a string its characters;
  nothing else can be iterated.
\<close>

definition py_iter :: "json \<Rightarrow> exn + json list" where
  "py_iter v =
     (case v of
        JArray xs \<Rightarrow> Inr xs
      | JObject kvs \<Rightarrow> Inr (map (\<lambda>kv. JString (fst kv)) kvs)
      | JString s \<Rightarrow> Inr (map (\<lambda>c. JString [c]) s)
      | _ \<Rightarrow> Inl TypeError)"

text \<open>Sequencing of computations that may raise.\<close>

definition and_then :: "exn + 'a \<Rightarrow> ('a \<Rightarrow> exn + 'b) \<Rightarrow> exn + 'b" where
  "and_then r f = (case r of Inl e \<Rightarrow> Inl e | Inr x \<Rightarrow> f x)"

text \<open>A list comprehension whose element expression may raise: the first exception ends it.\<close>

fun traverse :: "('a \<Rightarrow> exn + 'b) \<Rightarrow> 'a list \<Rightarrow> exn + 'b list" where
  "traverse f [] = Inr []"
| "traverse f (x # xs) =
     and_then (f x) (\<lambda>y. and_then (traverse f xs) (\<lambda>ys. Inr (y # ys)))"

text \<open>
  An HTTP response as the code reads it: \<open>response.status_code\<close>, \<open>response.text\<close>,
  and the document that \<open>response.json()\<close> or \<open>json.loads(response.text)\<close> decodes,
  \<open>None\<close> when the body is not JSON (decoding raises \<open>ValueError\<close>).
\<close>

record response =
  status_code :: int
  content_text :: string
  decoded :: "json option"

text \<open>
  A request body is either \<open>json.dumps(d)\<close> of a document \<open>d\<close>, kept as the document,
  or a string the code built itself.
\<close>

datatype payload = Dumps json | Text string

text \<open>
  One constructor for each verb of \<open>NifiConnection\<close>: \<open>_get\<close>, \<open>_put\<close>, \<open>_post\<close>,
  \<open>_upload\<close> (a POST with multipart files: field name, file name, content, content
  type) and \<open>requests.delete\<close>. The headers are fixed for each verb.
\<close>

datatype request =
    Get string
  | Put string payload
  | Post string payload
  | Upload string "(string \<times> string \<times> string \<times> string) list"
  | Delete string

datatype event = Http request | Sleep nat

datatype log_record = Info string | Info_int int

text \<open>
  Everything outside the program: the server (any deterministic state machine; no
  answer means that \<open>requests\<close> raised), what the server does while the program
  sleeps, \<open>str()\<close> of a decoded value that is not a string, and the files that
  \<open>open(path, 'rb')\<close> can read.
\<close>

record 's env =
  serve :: "'s \<Rightarrow> request \<Rightarrow> response option \<times> 's"
  settle :: "nat \<Rightarrow> 's \<Rightarrow> 's"
  py_str :: "json \<Rightarrow> string"
  open_rb :: "string \<Rightarrow> string option"

text \<open>
  The state a call runs in: the server's state, the requests and sleeps issued so far,
  the records given to \<open>LOGGER.info\<close>, and the lines printed.
\<close>

record 's world =
  server :: 's
  trace :: "event list"
  logged :: "log_record list"
  printed :: "string list"

type_synonym ('a, 's) io = "'s world \<Rightarrow> (exn + 'a) \<times> 's world"

definition io_return :: "'a \<Rightarrow> ('a, 's) io" where
  "io_return x w = (Inr x, w)"

definition io_bind :: "('a, 's) io \<Rightarrow> ('a \<Rightarrow> ('b, 's) io) \<Rightarrow> ('b, 's) io" where
  "io_bind m f w = (case m w of (Inl e, w') \<Rightarrow> (Inl e, w') | (Inr x, w') \<Rightarrow> f x w')"

definition lift :: "exn + 'a \<Rightarrow> ('a, 's) io" where
  "lift r w = (r, w)"

definition send :: "'s env \<Rightarrow> request \<Rightarrow> (response, 's) io" where
  "send env rq w =
     (case serve env (server w) rq of
        (None, s') \<Rightarrow> (Inl RequestException, w\<lparr>server := s', trace := trace w @ [Http rq]\<rparr>)
      | (Some r, s') \<Rightarrow> (Inr r, w\<lparr>server := s', trace := trace w @ [Http rq]\<rparr>))"

definition sleep :: "'s env \<Rightarrow> nat \<Rightarrow> (unit, 's) io" where
  "sleep env n w = (Inr (), w\<lparr>server := settle env n (server w), trace := trace w @ [Sleep n]\<rparr>)"

definition LOGGER_info :: "log_record \<Rightarrow> (unit, 's) io" where
  "LOGGER_info m w = (Inr (), w\<lparr>logged := logged w @ [m]\<rparr>)"

definition print :: "string \<Rightarrow> (unit, 's) io" where
  "print s w = (Inr (), w\<lparr>printed := printed w @ [s]\<rparr>)"

text \<open>A list comprehension whose element expression talks to the server.\<close>

fun io_map :: "('a \<Rightarrow> ('b, 's) io) \<Rightarrow> 'a list \<Rightarrow> ('b list, 's) io" where
  "io_map f [] = io_return []"
| "io_map f (x # xs) =
     io_bind (f x) (\<lambda>y. io_bind (io_map f xs) (\<lambda>ys. io_return (y # ys)))"

text \<open>\<open>response.json()\<close> and \<open>json.loads(response.text)\<close>.\<close>

definition response_json :: "response \<Rightarrow> exn + json" where
  "response_json r = (case decoded r of None \<Rightarrow> Inl ValueError | Some d \<Rightarrow> Inr d)"

section \<open>String formatting\<close>

text \<open>
  \<open>template.format(**kwargs)\<close> for the replacement fields this file's templates use:
  \<open>{name}\<close> is replaced by the keyword argument of that name (a missing name raises
  \<open>KeyError\<close>), \<open>{{\<close> and \<open>}}\<close> stand for one brace, and an unmatched brace raises
  \<open>ValueError\<close>. The template is read once, left to right; the inserted text is not
  read again.
\<close>

lemma dropWhile_Cons_shorter: "dropWhile P xs = y # ys \<Longrightarrow> length ys < Suc (length xs)"
  using length_dropWhile_le [of P xs] by simp

function format :: "string \<Rightarrow> (string \<times> string) list \<Rightarrow> exn + string" where
  "format [] kwargs = Inr []"
| "format (c # cs) kwargs =
     (if c = CHR ''{'' then
        (case cs of
           [] \<Rightarrow> Inl ValueError
         | d # ds \<Rightarrow>
             if d = CHR ''{'' then and_then (format ds kwargs) (\<lambda>r. Inr (CHR ''{'' # r))
             else
               (case dropWhile (\<lambda>x. x \<noteq> CHR ''}'') cs of
                  [] \<Rightarrow> Inl ValueError
                | _ # rest \<Rightarrow>
                    and_then (getitem kwargs (takeWhile (\<lambda>x. x \<noteq> CHR ''}'') cs))
                      (\<lambda>v. and_then (format rest kwargs) (\<lambda>r. Inr (v @ r)))))
      else if c = CHR ''}'' then
        (case cs of
           [] \<Rightarrow> Inl ValueError
         | d # ds \<Rightarrow>
             if d = CHR ''}'' then and_then (format ds kwargs) (\<lambda>r. Inr (CHR ''}'' # r))
             else Inl ValueError)
      else and_then (format cs kwargs) (\<lambda>r. Inr (c # r)))"
  by pat_completeness auto
termination
  by (relation "measure (\<lambda>(t, kw). length t)")
     (auto split: if_splits dest!: dropWhile_Cons_shorter)

text \<open>\<open>str(n)\<close> for a length.\<close>

function str_nat :: "nat \<Rightarrow> string" where
  "str_nat n =
     (if n < 10 then [''0123456789'' ! n]
      else str_nat (n div 10) @ [''0123456789'' ! (n mod 10)])"
  by pat_completeness auto
termination
  by (relation "measure (\<lambda>n. n)") auto

section \<open>NifiConnection\<close>

definition BASE :: string where "BASE = ''Base''"
definition PROCESSOR :: string where "PROCESSOR = ''Processor''"
definition FLOW :: string where "FLOW = ''Flow''"
definition CONTROLLER_SERVICE :: string where "CONTROLLER_SERVICE = ''Controller Service''"
definition CONTROLLER_SERVICES :: string where "CONTROLLER_SERVICES = ''Controller Services''"
definition PROCESS_GROUP :: string where "PROCESS_GROUP = ''Process Group''"
definition TEMPLATE :: string where "TEMPLATE = ''Template''"

definition COMPONENT_ENDPOINT_TEMPLATES :: "(string \<times> string) list" where
  "COMPONENT_ENDPOINT_TEMPLATES =
     [(BASE, ''{url_base}/nifi-api''),
      (PROCESSOR, ''{url_base}/nifi-api/processors/{component_id}''),
      (CONTROLLER_SERVICE, ''{url_base}/nifi-api/controller-services/{component_id}''),
      (FLOW, ''{url_base}/nifi-api/flow/process-groups/{component_id}/''),
      (PROCESS_GROUP, ''{url_base}/nifi-api/process-groups/{component_id}/''),
      (CONTROLLER_SERVICES,
         ''{url_base}/nifi-api/flow/process-groups/{process_group}/{subpath}''),
      (TEMPLATE, ''{url_base}/nifi-api/templates/{component_id}/'')]"

record NifiConnection =
  url_base :: string

text \<open>
  A handle on a server entity. \<open>component_type\<close> is the class attribute of the
  subclass; the other fields are the attributes \<open>__init__\<close> sets (\<open>self.url_base\<close>
  is \<open>component_url_base\<close>). The id is whatever the caller passes: a string from
  the user, any decoded value when it comes out of a response.
\<close>

record NifiComponent =
  component_type :: string
  component_id :: json
  nifi_connection :: NifiConnection
  component_url_base :: string
  template :: string
  url :: string
  endpoints :: "(string \<times> string) list"

text \<open>What \<open>format\<close> inserts for a keyword argument: a string as it is.\<close>

definition format_value :: "'s env \<Rightarrow> json \<Rightarrow> string" where
  "format_value env v = (case v of JString s \<Rightarrow> s | _ \<Rightarrow> py_str env v)"

definition NifiComponent_init ::
  "'s env \<Rightarrow> string \<Rightarrow> NifiConnection \<Rightarrow> json \<Rightarrow> exn + NifiComponent" where
  "NifiComponent_init env ctype conn cid =
     and_then (getitem COMPONENT_ENDPOINT_TEMPLATES ctype) (\<lambda>tmpl.
     and_then (format tmpl [(''url_base'', url_base conn),
                            (''component_id'', format_value env cid)]) (\<lambda>u.
     Inr \<lparr>component_type = ctype, component_id = cid, nifi_connection = conn,
          component_url_base = url_base conn, template = tmpl, url = u,
          endpoints = []\<rparr>))"

text \<open>\<open>__str__\<close> and \<open>__repr__\<close>.\<close>

definition str :: "NifiComponent \<Rightarrow> string" where
  "str self = ''url: '' @ url self"

definition Processor :: "'s env \<Rightarrow> NifiConnection \<Rightarrow> json \<Rightarrow> exn + NifiComponent" where
  "Processor env conn processor_id = NifiComponent_init env ''Processor'' conn processor_id"

definition ControllerService :: "'s env \<Rightarrow> NifiConnection \<Rightarrow> json \<Rightarrow> exn + NifiComponent" where
  "ControllerService env conn controller_service_id =
     NifiComponent_init env ''Controller Service'' conn controller_service_id"

definition FlowProcessGroup :: "'s env \<Rightarrow> NifiConnection \<Rightarrow> json \<Rightarrow> exn + NifiComponent" where
  "FlowProcessGroup env conn process_group_id =
     and_then (NifiComponent_init env ''Flow'' conn process_group_id) (\<lambda>self.
     Inr (self\<lparr>endpoints :=
            AList.update ''controller-services'' ''controller-services'' (endpoints self)\<rparr>))"

definition ProcessGroup :: "'s env \<Rightarrow> NifiConnection \<Rightarrow> json \<Rightarrow> exn + NifiComponent" where
  "ProcessGroup env conn process_group_id =
     and_then (NifiComponent_init env ''Process Group'' conn process_group_id) (\<lambda>self.
     Inr (self\<lparr>endpoints :=
            AList.update ''controller-services'' ''controller-services''
              (AList.update ''initialize_template'' ''template-instance''
                (AList.update ''upload_template'' ''templates/upload'' (endpoints self)))\<rparr>))"

definition Template :: "'s env \<Rightarrow> NifiConnection \<Rightarrow> json \<Rightarrow> exn + NifiComponent" where
  "Template env conn template_id =
     and_then (NifiComponent_init env ''Template'' conn template_id) (\<lambda>self.
     Inr (self\<lparr>endpoints := AList.update ''download'' ''download'' (endpoints self)\<rparr>))"

text \<open>
  The verbs \<open>_get\<close>, \<open>_put\<close>, \<open>_post\<close> and \<open>_upload\<close>. The methods of the
  connection that do not read \<open>self.url_base\<close> take no connection argument.
\<close>

definition http_get :: "'s env \<Rightarrow> string \<Rightarrow> (response, 's) io" where
  "http_get env u = send env (Get u)"

definition http_put :: "'s env \<Rightarrow> string \<Rightarrow> payload \<Rightarrow> (response, 's) io" where
  "http_put env u data = send env (Put u data)"

definition http_post :: "'s env \<Rightarrow> string \<Rightarrow> payload \<Rightarrow> (response, 's) io" where
  "http_post env u data = send env (Post u data)"

definition http_upload ::
  "'s env \<Rightarrow> string \<Rightarrow> (string \<times> string \<times> string \<times> string) list \<Rightarrow> (response, 's) io" where
  "http_upload env u files = send env (Upload u files)"

definition get_info :: "'s env \<Rightarrow> string \<Rightarrow> (json, 's) io" where
  "get_info env u = io_bind (http_get env u) (\<lambda>response. lift (response_json response))"

text \<open>\<open>d[k1][k2]\<close>.\<close>

definition subscript2 :: "json \<Rightarrow> string \<Rightarrow> string \<Rightarrow> exn + json" where
  "subscript2 d k1 k2 = and_then (subscript d k1) (\<lambda>c. subscript c k2)"

definition get_state :: "'s env \<Rightarrow> string \<Rightarrow> (json, 's) io" where
  "get_state env u =
     io_bind (get_info env u) (\<lambda>response_dict. lift (
       and_then (subscript2 response_dict ''component'' ''id'') (\<lambda>i.
       and_then (subscript2 response_dict ''component'' ''state'') (\<lambda>st.
       and_then (subscript2 response_dict ''revision'' ''version'') (\<lambda>v.
       Inr (JObject [(''component'', JObject [(''id'', i), (''state'', st)]),
                     (''revision'', JObject [(''version'', v)])]))))))"

text \<open>
  The guard of \<open>change_state\<close>:
  \<open>forbidden_initial_state and request_dict["component"]["state"] == forbidden_initial_state\<close>.
  \<open>None\<close> and the empty string are false, and then the state is not looked at.
\<close>

definition forbidden :: "json \<Rightarrow> string option \<Rightarrow> exn + bool" where
  "forbidden request_dict forbidden_initial_state =
     (case forbidden_initial_state of
        None \<Rightarrow> Inr False
      | Some f \<Rightarrow>
          if f = [] then Inr False
          else and_then (subscript2 request_dict ''component'' ''state'')
                 (\<lambda>st. Inr (st = JString f)))"

text \<open>\<open>request_dict["component"]["state"] = state\<close>.\<close>

definition set_state :: "json \<Rightarrow> string \<Rightarrow> exn + json" where
  "set_state request_dict state =
     and_then (subscript request_dict ''component'') (\<lambda>c.
     and_then (setitem c ''state'' (JString state)) (\<lambda>c'.
     setitem request_dict ''component'' c'))"

text \<open>What \<open>format\<close> inserts for an optional string.\<close>

definition str_opt :: "string option \<Rightarrow> string" where
  "str_opt x = (case x of None \<Rightarrow> ''None'' | Some s \<Rightarrow> s)"

definition change_state ::
  "'s env \<Rightarrow> string \<Rightarrow> string \<Rightarrow> string option \<Rightarrow> (unit, 's) io" where
  "change_state env u state forbidden_initial_state =
     io_bind (get_state env u) (\<lambda>request_dict.
     io_bind (lift (forbidden request_dict forbidden_initial_state)) (\<lambda>skip.
       if skip then
         LOGGER_info (Info (''Can't change from '' @ str_opt forbidden_initial_state @ '' to '' @ state
                            @ '' in this request!'' @ ''Method does not support this!''))
       else
         io_bind (lift (set_state request_dict state)) (\<lambda>request_dict'.
         io_bind (http_post env u (Dumps request_dict')) (\<lambda>response.
         io_bind (LOGGER_info (Info_int (status_code response))) (\<lambda>_.
         if status_code response \<noteq> 200 then print (content_text response)
         else io_return ())))))"

text \<open>
  The two comprehensions of \<open>get_referencing_components\<close>: first the pair
  (id, referenceType) of every entry, then a \<open>Processor\<close> for each pair whose type is
  \<open>PROCESSOR\<close>.
\<close>

definition referencing_component_info :: "json \<Rightarrow> exn + json \<times> json" where
  "referencing_component_info d =
     and_then (subscript2 d ''component'' ''id'') (\<lambda>i.
     and_then (subscript2 d ''component'' ''referenceType'') (\<lambda>t. Inr (i, t)))"

definition get_referencing_components ::
  "'s env \<Rightarrow> NifiConnection \<Rightarrow> string \<Rightarrow> (NifiComponent list, 's) io" where
  "get_referencing_components env conn u =
     io_bind (get_info env u) (\<lambda>request_dict.
     io_bind (lift (subscript2 request_dict ''component'' ''referencingComponents''))
       (\<lambda>referencing_component_dicts.
     io_bind (lift (and_then (py_iter referencing_component_dicts)
                      (traverse referencing_component_info)))
       (\<lambda>referencing_component_infos.
     lift (traverse (\<lambda>info. Processor env conn (fst info))
             (filter (\<lambda>info. snd info = JString PROCESSOR) referencing_component_infos)))))"

section \<open>Processor\<close>

definition Processor_start :: "'s env \<Rightarrow> NifiComponent \<Rightarrow> (unit, 's) io" where
  "Processor_start env self =
     io_bind (LOGGER_info (Info (''starting '' @ str self))) (\<lambda>_.
     change_state env (url self) ''RUNNING'' (Some ''DISABLED''))"

definition Processor_stop :: "'s env \<Rightarrow> NifiComponent \<Rightarrow> (unit, 's) io" where
  "Processor_stop env self =
     io_bind (LOGGER_info (Info (''stopping '' @ str self))) (\<lambda>_.
     change_state env (url self) ''STOPPED'' (Some ''DISABLED''))"

definition Processor_enable :: "'s env \<Rightarrow> NifiComponent \<Rightarrow> (unit, 's) io" where
  "Processor_enable env self =
     io_bind (LOGGER_info (Info (''enabling '' @ str self))) (\<lambda>_.
     change_state env (url self) ''STOPPED'' (Some ''RUNNING''))"

definition Processor_disable :: "'s env \<Rightarrow> NifiComponent \<Rightarrow> (unit, 's) io" where
  "Processor_disable env self =
     io_bind (LOGGER_info (Info (''disabling '' @ str self))) (\<lambda>_.
     change_state env (url self) ''DISABLED'' (Some ''RUNNING''))"

definition Processor_restart :: "'s env \<Rightarrow> NifiComponent \<Rightarrow> (unit, 's) io" where
  "Processor_restart env self =
     io_bind (LOGGER_info (Info (''restarting '' @ str self))) (\<lambda>_.
     io_bind (Processor_stop env self) (\<lambda>_.
     io_bind (sleep env 5) (\<lambda>_.
     Processor_start env self)))"

section \<open>ControllerService\<close>

definition get_name :: "'s env \<Rightarrow> NifiComponent \<Rightarrow> (json, 's) io" where
  "get_name env self =
     io_bind (http_get env (url self)) (\<lambda>response.
     io_bind (lift (and_then (response_json response)
                      (\<lambda>d. subscript2 d ''component'' ''name''))) (\<lambda>cs_name.
     io_bind (LOGGER_info (Info (''name of '' @ str self @ '' is '' @ format_value env cs_name)))
       (\<lambda>_.
     io_return cs_name)))"

definition ControllerService_get_referencing_components ::
  "'s env \<Rightarrow> NifiComponent \<Rightarrow> (NifiComponent list, 's) io" where
  "ControllerService_get_referencing_components env self =
     get_referencing_components env (nifi_connection self) (url self)"

definition stop_referencing_components :: "'s env \<Rightarrow> NifiComponent \<Rightarrow> (unit list, 's) io" where
  "stop_referencing_components env self =
     io_bind (ControllerService_get_referencing_components env self)
       (io_map (Processor_stop env))"

definition start_referencing_components :: "'s env \<Rightarrow> NifiComponent \<Rightarrow> (unit list, 's) io" where
  "start_referencing_components env self =
     io_bind (ControllerService_get_referencing_components env self)
       (io_map (Processor_start env))"

definition ControllerService_enable :: "'s env \<Rightarrow> NifiComponent \<Rightarrow> (unit, 's) io" where
  "ControllerService_enable env self =
     io_bind (LOGGER_info (Info (''enabling '' @ str self))) (\<lambda>_.
     change_state env (url self) ''ENABLED'' None)"

definition ControllerService_disable :: "'s env \<Rightarrow> NifiComponent \<Rightarrow> (unit, 's) io" where
  "ControllerService_disable env self =
     io_bind (LOGGER_info (Info (''disabling '' @ str self))) (\<lambda>_.
     change_state env (url self) ''DISABLED'' None)"

definition ControllerService_restart :: "'s env \<Rightarrow> NifiComponent \<Rightarrow> (unit, 's) io" where
  "ControllerService_restart env self =
     io_bind (LOGGER_info (Info (''restarting controller service '' @ str self))) (\<lambda>_.
     io_bind (stop_referencing_components env self) (\<lambda>_.
     io_bind (sleep env 5) (\<lambda>_.
     io_bind (ControllerService_disable env self) (\<lambda>_.
     io_bind (sleep env 5) (\<lambda>_.
     io_bind (ControllerService_enable env self) (\<lambda>_.
     io_bind (sleep env 5) (\<lambda>_.
     io_bind (start_referencing_components env self) (\<lambda>_.
     LOGGER_info (Info (''restart attempt of controller service '' @ str self
                        @ '' concluded.''))))))))))"

section \<open>FlowProcessGroup\<close>

definition get_controller_services :: "'s env \<Rightarrow> NifiComponent \<Rightarrow> (NifiComponent list, 's) io" where
  "get_controller_services env self =
     io_bind (lift (getitem (endpoints self) ''controller-services'')) (\<lambda>endpoint.
     io_bind (http_get env (url self @ endpoint)) (\<lambda>response.
     io_bind (lift (response_json response)) (\<lambda>response_json.
     io_bind (lift (and_then (subscript response_json ''controllerServices'') (\<lambda>l.
                    and_then (py_iter l)
                      (traverse (\<lambda>controller_service.
                         subscript2 controller_service ''component'' ''id'')))))
       (\<lambda>controller_service_ids.
     io_bind (lift (traverse (ControllerService env (nifi_connection self))
                      controller_service_ids)) (\<lambda>controller_services.
     io_bind (LOGGER_info (Info (str_nat (length controller_services) @ '' controllers found'')))
       (\<lambda>_.
     io_return controller_services))))))"

text \<open>
  The loop of \<open>get_controller_service_by_name\<close>, with the variable
  \<open>controller_service\<close> as an argument: \<open>None\<close> before the loop, and assigned at every
  service whose name is equal to \<open>name\<close>.
\<close>

fun by_name_loop ::
  "'s env \<Rightarrow> string \<Rightarrow> NifiComponent list \<Rightarrow> NifiComponent option
     \<Rightarrow> (NifiComponent option, 's) io" where
  "by_name_loop env name [] controller_service = io_return controller_service"
| "by_name_loop env name (cs # rest) controller_service =
     io_bind (get_name env cs) (\<lambda>n.
       if n = JString name then
         io_bind (LOGGER_info (Info (''found controller with name '' @ name))) (\<lambda>_.
         by_name_loop env name rest (Some cs))
       else by_name_loop env name rest controller_service)"

definition get_controller_service_by_name ::
  "'s env \<Rightarrow> NifiComponent \<Rightarrow> string \<Rightarrow> (NifiComponent option, 's) io" where
  "get_controller_service_by_name env self name =
     io_bind (get_controller_services env self) (\<lambda>controller_services.
     by_name_loop env name controller_services None)"

text \<open>
  \<open>'{"id": "' + self.component_id + '", "state": "RUNNING"}'\<close>: only a string can be
  added to a string.
\<close>

definition FlowProcessGroup_start :: "'s env \<Rightarrow> NifiComponent \<Rightarrow> (response, 's) io" where
  "FlowProcessGroup_start env self =
     io_bind (LOGGER_info (Info (''starting '' @ str self))) (\<lambda>_.
     io_bind (lift (case component_id self of
                      JString i \<Rightarrow> Inr (''{\"id\": \"'' @ i @ ''\", \"state\": \"RUNNING\"}'')
                    | _ \<Rightarrow> Inl TypeError)) (\<lambda>data.
     http_put env (url self) (Text data)))"

section \<open>ProcessGroup\<close>

text \<open>\<open>os.path.basename\<close>: what follows the last slash.\<close>

definition basename :: "string \<Rightarrow> string" where
  "basename p = rev (takeWhile (\<lambda>c. c \<noteq> CHR ''/'') (rev p))"

text \<open>
  \<open>(.*)</id>\<close> at the start of a string: the group and what follows the match. The
  dot takes any character but the newline, and the star is greedy: a longer group is
  preferred, and the closing tag is tried where the group cannot grow.
\<close>

fun group_close :: "string \<Rightarrow> (string \<times> string) option" where
  "group_close [] = None"
| "group_close (c # cs) =
     (case (if c = CHR 0x0A then None else group_close cs) of
        Some (g, rest) \<Rightarrow> Some (c # g, rest)
      | None \<Rightarrow> if take 5 (c # cs) = ''</id>'' then Some ([], drop 5 (c # cs)) else None)"

lemma group_close_shorter: "group_close s = Some (g, rest) \<Longrightarrow> length rest < length s"
  by (induction s arbitrary: g rest) (auto split: if_splits option.splits)

text \<open>
  \<open>re.findall('<id>(.*)</id>', text)\<close>: the groups of the matches, leftmost first, each
  search starting where the match before it ended.
\<close>

function findall_id :: "string \<Rightarrow> string list" where
  "findall_id [] = []"
| "findall_id (c # cs) =
     (if take 4 (c # cs) = ''<id>'' then
        (case group_close (drop 4 (c # cs)) of
           Some (g, rest) \<Rightarrow> g # findall_id rest
         | None \<Rightarrow> findall_id cs)
      else findall_id cs)"
  by pat_completeness auto
termination
  by (relation "measure length") (auto dest!: group_close_shorter)

definition upload_template :: "'s env \<Rightarrow> NifiComponent \<Rightarrow> string \<Rightarrow> (NifiComponent, 's) io" where
  "upload_template env self template_path =
     io_bind (lift (getitem (endpoints self) ''upload_template'')) (\<lambda>endpoint.
     io_bind (lift (case open_rb env template_path of
                      None \<Rightarrow> Inl OSError | Some content \<Rightarrow> Inr content)) (\<lambda>content.
     io_bind (http_upload env (url self @ endpoint)
                [(''template'', basename template_path, content, ''text/xml'')]) (\<lambda>response.
     io_bind (lift (case findall_id (content_text response) of
                      [] \<Rightarrow> Inl IndexError | template_id # _ \<Rightarrow> Inr template_id))
       (\<lambda>template_id.
     lift (Template env (nifi_connection self) (JString template_id))))))"

section \<open>A test server\<close>

text \<open>
  A server with one revisioned component, for running the model on concrete inputs. Its
  state is the component's state and version. A read answers with the component's
  document. A write is accepted when it names one of the three processor states and
  carries the current version, which it then increments; a stale version is answered
  with 409 and any other document with 400. A PUT is accepted as it is; every other
  verb fails in transit.
\<close>

definition component_doc :: "string \<Rightarrow> int \<Rightarrow> json" where
  "component_doc st ver =
     JObject [(''revision'', JObject [(''clientId'', JString ''c0''), (''version'', JInt ver)]),
              (''id'', JString ''p1''),
              (''component'', JObject [(''id'', JString ''p1''), (''name'', JString ''GetFile''),
                                      (''state'', JString st)])]"

definition test_serve :: "string \<times> int \<Rightarrow> request \<Rightarrow> response option \<times> (string \<times> int)" where
  "test_serve s rq =
     (case rq of
        Get u \<Rightarrow>
          (Some \<lparr>status_code = 200, content_text = [],
                 decoded = Some (component_doc (fst s) (snd s))\<rparr>, s)
      | Post u (Dumps d) \<Rightarrow>
          (case (subscript2 d ''component'' ''state'', subscript2 d ''revision'' ''version'') of
             (Inr (JString st), Inr (JInt ver)) \<Rightarrow>
               if st \<notin> {''RUNNING'', ''STOPPED'', ''DISABLED''} then
                 (Some \<lparr>status_code = 400, content_text = ''unknown state'', decoded = None\<rparr>, s)
               else if ver = snd s then
                 (Some \<lparr>status_code = 200, content_text = [],
                        decoded = Some (component_doc st (ver + 1))\<rparr>, (st, ver + 1))
               else
                 (Some \<lparr>status_code = 409, content_text = ''stale revision'', decoded = None\<rparr>, s)
           | _ \<Rightarrow>
               (Some \<lparr>status_code = 400, content_text = ''malformed'', decoded = None\<rparr>, s))
      | Put u data \<Rightarrow> (Some \<lparr>status_code = 200, content_text = [], decoded = None\<rparr>, s)
      | _ \<Rightarrow> (None, s))"

definition test_env :: "(string \<times> int) env" where
  "test_env = \<lparr>serve = test_serve, settle = (\<lambda>n s. s), py_str = (\<lambda>v. ''?''),
               open_rb = (\<lambda>p. None)\<rparr>"

definition test_world :: "string \<Rightarrow> int \<Rightarrow> (string \<times> int) world" where
  "test_world st ver = \<lparr>server = (st, ver), trace = [], logged = [], printed = []\<rparr>"

definition test_conn :: NifiConnection where
  "test_conn = \<lparr>url_base = ''http://nifi:8080''\<rparr>"

definition test_flow :: NifiComponent where
  "test_flow =
     \<lparr>component_type = ''Flow'', component_id = JString ''root'', nifi_connection = test_conn,
      component_url_base = ''http://nifi:8080'',
      template = ''{url_base}/nifi-api/flow/process-groups/{component_id}/'',
      url = ''http://nifi:8080/nifi-api/flow/process-groups/root/'',
      endpoints = [(''controller-services'', ''controller-services'')]\<rparr>"

text \<open>
  A second server, with no state: a controller service \<open>cs1\<close> that is referenced by
  the processors \<open>p1\<close> (running) and \<open>p2\<close> (disabled) and by another service, two
  more services, the listing of the three services under the root process group, and two
  process groups, of which only \<open>root\<close> accepts a template.
\<close>

definition reference_doc :: "string \<Rightarrow> string \<Rightarrow> json" where
  "reference_doc i t =
     JObject [(''id'', JString i),
              (''component'', JObject [(''id'', JString i), (''name'', JString ''ref''),
                                      (''referenceType'', JString t)])]"

definition service_doc :: "string \<Rightarrow> string \<Rightarrow> json" where
  "service_doc i n =
     JObject [(''revision'', JObject [(''version'', JInt 2)]),
              (''id'', JString i),
              (''component'',
                 JObject [(''id'', JString i), (''name'', JString n),
                          (''state'', JString ''ENABLED''),
                          (''referencingComponents'',
                             JArray [reference_doc ''p1'' ''Processor'',
                                     reference_doc ''cs9'' ''ControllerService'',
                                     reference_doc ''p2'' ''Processor''])])]"

definition processor_doc :: "string \<Rightarrow> string \<Rightarrow> int \<Rightarrow> json" where
  "processor_doc i st ver =
     JObject [(''revision'', JObject [(''version'', JInt ver)]),
              (''id'', JString i),
              (''component'', JObject [(''id'', JString i), (''name'', JString ''GetFile''),
                                      (''state'', JString st)])]"

definition ok :: "json \<Rightarrow> response" where
  "ok d = \<lparr>status_code = 200, content_text = [], decoded = Some d\<rparr>"

definition nifi_serve :: "unit \<Rightarrow> request \<Rightarrow> response option \<times> unit" where
  "nifi_serve s rq =
     (case rq of
        Get u \<Rightarrow>
          (if u = ''http://nifi:8080/nifi-api/controller-services/cs1'' then
             Some (ok (service_doc ''cs1'' ''pool''))
           else if u = ''http://nifi:8080/nifi-api/controller-services/cs2'' then
             Some (ok (service_doc ''cs2'' ''cache''))
           else if u = ''http://nifi:8080/nifi-api/controller-services/cs3'' then
             Some (ok (service_doc ''cs3'' ''pool''))
           else if u = ''http://nifi:8080/nifi-api/processors/p1'' then
             Some (ok (processor_doc ''p1'' ''RUNNING'' 1))
           else if u = ''http://nifi:8080/nifi-api/processors/p2'' then
             Some (ok (processor_doc ''p2'' ''DISABLED'' 7))
           else if u = ''http://nifi:8080/nifi-api/flow/process-groups/root/controller-services'' then
             Some (ok (JObject [(''controllerServices'',
                                  JArray [service_doc ''cs1'' ''pool'', service_doc ''cs2'' ''cache'',
                                          service_doc ''cs3'' ''pool''])]))
           else Some \<lparr>status_code = 404, content_text = ''not found'', decoded = None\<rparr>, s)
      | Post u data \<Rightarrow> (Some \<lparr>status_code = 200, content_text = [], decoded = None\<rparr>, s)
      | Upload u files \<Rightarrow>
          (if u = ''http://nifi:8080/nifi-api/process-groups/root/templates/upload'' then
             Some \<lparr>status_code = 201,
                   content_text =
                     ''<templateEntity><template><id>abc-123</id></template></templateEntity>'',
                   decoded = None\<rparr>
           else Some \<lparr>status_code = 500, content_text = ''Internal Server Error'',
                      decoded = None\<rparr>, s)
      | _ \<Rightarrow> (None, s))"

definition nifi_env :: "unit env" where
  "nifi_env = \<lparr>serve = nifi_serve, settle = (\<lambda>n s. s), py_str = (\<lambda>v. ''?''),
               open_rb = (\<lambda>p. if p = ''/tmp/flow.xml'' then Some ''<template/>'' else None)\<rparr>"

definition nifi_world :: "unit world" where
  "nifi_world = \<lparr>server = (), trace = [], logged = [], printed = []\<rparr>"

text \<open>The handles the constructors give for these components.\<close>

definition test_p1 :: NifiComponent where
  "test_p1 =
     \<lparr>component_type = ''Processor'', component_id = JString ''p1'', nifi_connection = test_conn,
      component_url_base = ''http://nifi:8080'',
      template = ''{url_base}/nifi-api/processors/{component_id}'',
      url = ''http://nifi:8080/nifi-api/processors/p1'', endpoints = []\<rparr>"

definition test_p2 :: NifiComponent where
  "test_p2 =
     \<lparr>component_type = ''Processor'', component_id = JString ''p2'', nifi_connection = test_conn,
      component_url_base = ''http://nifi:8080'',
      template = ''{url_base}/nifi-api/processors/{component_id}'',
      url = ''http://nifi:8080/nifi-api/processors/p2'', endpoints = []\<rparr>"

definition test_service :: "string \<Rightarrow> NifiComponent" where
  "test_service i =
     \<lparr>component_type = ''Controller Service'', component_id = JString i,
      nifi_connection = test_conn, component_url_base = ''http://nifi:8080'',
      template = ''{url_base}/nifi-api/controller-services/{component_id}'',
      url = ''http://nifi:8080/nifi-api/controller-services/'' @ i, endpoints = []\<rparr>"

definition test_group :: "string \<Rightarrow> NifiComponent" where
  "test_group i =
     \<lparr>component_type = ''Process Group'', component_id = JString i,
      nifi_connection = test_conn, component_url_base = ''http://nifi:8080'',
      template = ''{url_base}/nifi-api/process-groups/{component_id}/'',
      url = ''http://nifi:8080/nifi-api/process-groups/'' @ i @ ''/'',
      endpoints = [(''upload_template'', ''templates/upload''),
                   (''initialize_template'', ''template-instance''),
                   (''controller-services'', ''controller-services'')]\<rparr>"

section \<open>Properties of traces and of response bodies\<close>

text \<open>
  A body has a match of \<open><id>(.*)</id>\<close> when it contains the opening tag, then
  characters none of which is a newline, then the closing tag.
\<close>

definition has_id_match :: "string \<Rightarrow> bool" where
  "has_id_match t = (\<exists>a g b. t = a @ ''<id>'' @ g @ ''</id>'' @ b \<and> CHR 0x0A \<notin> set g)"

text \<open>
  A match that starts after \<open>n\<close> characters and has the group \<open>g\<close>. The first match
  that a search with a greedy star finds is the leftmost one, and among the matches that
  start there the one with the longest group.
\<close>

definition id_match_at :: "string \<Rightarrow> nat \<Rightarrow> string \<Rightarrow> bool" where
  "id_match_at t n g =
     (\<exists>a b. t = a @ ''<id>'' @ g @ ''</id>'' @ b \<and> length a = n \<and> CHR 0x0A \<notin> set g)"

definition first_id_match :: "string \<Rightarrow> string \<Rightarrow> bool" where
  "first_id_match t g =
     (\<exists>n. id_match_at t n g
        \<and> (\<forall>n' g'. id_match_at t n' g' \<longrightarrow> n \<le> n' \<and> (n' = n \<longrightarrow> length g' \<le> length g)))"

text \<open>
  The server is a state machine and the trace holds every request and every sleep, so
  the state the server is in after some events is found by running them again.
\<close>

fun replay :: "'s env \<Rightarrow> 's \<Rightarrow> event list \<Rightarrow> 's" where
  "replay env s [] = s"
| "replay env s (Http rq # evs) = replay env (snd (serve env s rq)) evs"
| "replay env s (Sleep n # evs) = replay env (settle env n s) evs"

text \<open>
  What a state change that returns leaves in the trace when the server is in the state
  \<open>s\<close>. The read is answered with a document that has \<open>component.id\<close>,
  \<open>component.state\<close> and \<open>revision.version\<close>. When a forbidden initial state is
  given, is not empty and is the state read, the events are the read alone. In every
  other case they are the read and then the write of the id and the version as read
  with the new state.
\<close>

definition state_change_at ::
  "'s env \<Rightarrow> 's \<Rightarrow> string \<Rightarrow> string \<Rightarrow> string option \<Rightarrow> event list \<Rightarrow> bool" where
  "state_change_at env s u st f evs =
     (case fst (serve env s (Get u)) of
        None \<Rightarrow> False
      | Some r \<Rightarrow>
          (case decoded r of
             None \<Rightarrow> False
           | Some d \<Rightarrow>
               (case (subscript2 d ''component'' ''id'', subscript2 d ''component'' ''state'',
                      subscript2 d ''revision'' ''version'') of
                  (Inr i, Inr cur, Inr v) \<Rightarrow>
                    evs =
                      (if (case f of None \<Rightarrow> False | Some x \<Rightarrow> x \<noteq> [] \<and> cur = JString x)
                       then [Http (Get u)]
                       else [Http (Get u),
                             Http (Post u (Dumps (JObject
                               [(''component'', JObject [(''id'', i), (''state'', JString st)]),
                                (''revision'', JObject [(''version'', v)])])))])
                | _ \<Rightarrow> False)))"

section \<open>Constructing handles\<close>

lemmas type_names = BASE_def PROCESSOR_def CONTROLLER_SERVICE_def CONTROLLER_SERVICES_def
  FLOW_def PROCESS_GROUP_def TEMPLATE_def

lemma NifiComponent_init_Processor:
  "NifiComponent_init env ''Processor'' conn i =
     Inr \<lparr>component_type = ''Processor'', component_id = i, nifi_connection = conn,
          component_url_base = url_base conn,
          template = ''{url_base}/nifi-api/processors/{component_id}'',
          url = url_base conn @ ''/nifi-api/processors/'' @ format_value env i,
          endpoints = []\<rparr>"
  by (simp add: NifiComponent_init_def COMPONENT_ENDPOINT_TEMPLATES_def type_names
      getitem_def and_then_def)

lemma NifiComponent_init_ControllerService:
  "NifiComponent_init env ''Controller Service'' conn i =
     Inr \<lparr>component_type = ''Controller Service'', component_id = i, nifi_connection = conn,
          component_url_base = url_base conn,
          template = ''{url_base}/nifi-api/controller-services/{component_id}'',
          url = url_base conn @ ''/nifi-api/controller-services/'' @ format_value env i,
          endpoints = []\<rparr>"
  by (simp add: NifiComponent_init_def COMPONENT_ENDPOINT_TEMPLATES_def type_names
      getitem_def and_then_def)

lemma NifiComponent_init_Flow:
  "NifiComponent_init env ''Flow'' conn i =
     Inr \<lparr>component_type = ''Flow'', component_id = i, nifi_connection = conn,
          component_url_base = url_base conn,
          template = ''{url_base}/nifi-api/flow/process-groups/{component_id}/'',
          url = url_base conn @ ''/nifi-api/flow/process-groups/'' @ format_value env i @ ''/'',
          endpoints = []\<rparr>"
  by (simp add: NifiComponent_init_def COMPONENT_ENDPOINT_TEMPLATES_def type_names
      getitem_def and_then_def)

lemma NifiComponent_init_ProcessGroup:
  "NifiComponent_init env ''Process Group'' conn i =
     Inr \<lparr>component_type = ''Process Group'', component_id = i, nifi_connection = conn,
          component_url_base = url_base conn,
          template = ''{url_base}/nifi-api/process-groups/{component_id}/'',
          url = url_base conn @ ''/nifi-api/process-groups/'' @ format_value env i @ ''/'',
          endpoints = []\<rparr>"
  by (simp add: NifiComponent_init_def COMPONENT_ENDPOINT_TEMPLATES_def type_names
      getitem_def and_then_def)

lemma NifiComponent_init_Template:
  "NifiComponent_init env ''Template'' conn i =
     Inr \<lparr>component_type = ''Template'', component_id = i, nifi_connection = conn,
          component_url_base = url_base conn,
          template = ''{url_base}/nifi-api/templates/{component_id}/'',
          url = url_base conn @ ''/nifi-api/templates/'' @ format_value env i @ ''/'',
          endpoints = []\<rparr>"
  by (simp add: NifiComponent_init_def COMPONENT_ENDPOINT_TEMPLATES_def type_names
      getitem_def and_then_def)

text \<open>
  The template of the services listing has other placeholders. No component class has
  its type, and a handle of that type cannot be constructed.
\<close>

lemma listing_template_needs_other_fields:
  "NifiComponent_init env ''Controller Services'' conn i = Inl (KeyError ''process_group'')"
  by (simp add: NifiComponent_init_def COMPONENT_ENDPOINT_TEMPLATES_def type_names
      getitem_def and_then_def)

lemma Processor_handle:
  "Processor env conn i =
     Inr \<lparr>component_type = ''Processor'', component_id = i, nifi_connection = conn,
          component_url_base = url_base conn,
          template = ''{url_base}/nifi-api/processors/{component_id}'',
          url = url_base conn @ ''/nifi-api/processors/'' @ format_value env i,
          endpoints = []\<rparr>"
  by (simp add: Processor_def NifiComponent_init_Processor)

lemma test_handles:
  "Processor nifi_env test_conn (JString ''p1'') = Inr test_p1"
  "Processor nifi_env test_conn (JString ''p2'') = Inr test_p2"
  "ControllerService nifi_env test_conn (JString i) = Inr (test_service i)"
  "ProcessGroup nifi_env test_conn (JString i) = Inr (test_group i)"
  "FlowProcessGroup nifi_env test_conn (JString ''root'') = Inr test_flow"
  by (simp_all add: Processor_def ControllerService_def ProcessGroup_def FlowProcessGroup_def
      NifiComponent_init_Processor NifiComponent_init_ControllerService
      NifiComponent_init_ProcessGroup NifiComponent_init_Flow and_then_def format_value_def
      test_p1_def test_p2_def test_service_def test_group_def test_flow_def test_conn_def)

text \<open>
  C9. For each of the five component classes and every base URL and id, construction
  succeeds and the handle's URL is the class's template with \<open>{url_base}\<close> replaced by
  the base URL and \<open>{component_id}\<close> by the id, each once: text inserted for one
  placeholder is not read again for the other. The URL is a function of the class, the
  base URL and the id alone, so resolving again gives the same URL; no operation of the
  model returns a changed handle.
\<close>

theorem resolved_url:
  "map_sum id url (Processor env conn (JString i)) =
     Inr (url_base conn @ ''/nifi-api/processors/'' @ i)
   \<and> map_sum id url (ControllerService env conn (JString i)) =
     Inr (url_base conn @ ''/nifi-api/controller-services/'' @ i)
   \<and> map_sum id url (FlowProcessGroup env conn (JString i)) =
     Inr (url_base conn @ ''/nifi-api/flow/process-groups/'' @ i @ ''/'')
   \<and> map_sum id url (ProcessGroup env conn (JString i)) =
     Inr (url_base conn @ ''/nifi-api/process-groups/'' @ i @ ''/'')
   \<and> map_sum id url (Template env conn (JString i)) =
     Inr (url_base conn @ ''/nifi-api/templates/'' @ i @ ''/'')"
  by (simp add: Processor_def ControllerService_def FlowProcessGroup_def ProcessGroup_def
      Template_def NifiComponent_init_Processor NifiComponent_init_ControllerService
      NifiComponent_init_Flow NifiComponent_init_ProcessGroup NifiComponent_init_Template
      and_then_def format_value_def)

section \<open>Changing a state\<close>

lemmas io_defs = io_bind_def io_return_def lift_def send_def sleep_def LOGGER_info_def print_def
  http_get_def http_put_def http_post_def http_upload_def

text \<open>
  C3. The four state methods of a processor are \<open>change_state\<close> on the processor's URL,
  after one log record: \<open>start\<close> to RUNNING unless DISABLED, \<open>stop\<close> to STOPPED unless
  DISABLED, \<open>enable\<close> to STOPPED unless RUNNING, \<open>disable\<close> to DISABLED unless RUNNING.
\<close>

theorem Processor_state_methods:
  "Processor_start env self w =
     change_state env (url self) ''RUNNING'' (Some ''DISABLED'')
       (w\<lparr>logged := logged w @ [Info (''starting url: '' @ url self)]\<rparr>)
   \<and> Processor_stop env self w =
     change_state env (url self) ''STOPPED'' (Some ''DISABLED'')
       (w\<lparr>logged := logged w @ [Info (''stopping url: '' @ url self)]\<rparr>)
   \<and> Processor_enable env self w =
     change_state env (url self) ''STOPPED'' (Some ''RUNNING'')
       (w\<lparr>logged := logged w @ [Info (''enabling url: '' @ url self)]\<rparr>)
   \<and> Processor_disable env self w =
     change_state env (url self) ''DISABLED'' (Some ''RUNNING'')
       (w\<lparr>logged := logged w @ [Info (''disabling url: '' @ url self)]\<rparr>)"
  by (simp add: Processor_start_def Processor_stop_def Processor_enable_def
      Processor_disable_def io_bind_def LOGGER_info_def str_def)

lemma get_info_run:
  assumes "serve env (server w) (Get u) = (Some r, s1)" and "decoded r = Some d"
  shows "get_info env u w = (Inr d, w\<lparr>server := s1, trace := trace w @ [Http (Get u)]\<rparr>)"
  using assms by (simp add: get_info_def io_defs response_json_def)

lemma get_state_run:
  assumes "serve env (server w) (Get u) = (Some r, s1)" and "decoded r = Some d"
    and "subscript2 d ''component'' ''id'' = Inr i"
    and "subscript2 d ''component'' ''state'' = Inr st"
    and "subscript2 d ''revision'' ''version'' = Inr v"
  shows "get_state env u w =
     (Inr (JObject [(''component'', JObject [(''id'', i), (''state'', st)]),
                    (''revision'', JObject [(''version'', v)])]),
      w\<lparr>server := s1, trace := trace w @ [Http (Get u)]\<rparr>)"
  using assms by (simp add: get_state_def get_info_run io_bind_def lift_def and_then_def)

lemma set_state_request:
  "set_state (JObject [(''component'', JObject [(''id'', i), (''state'', st)]),
                       (''revision'', JObject [(''version'', v)])]) state =
     Inr (JObject [(''component'', JObject [(''id'', i), (''state'', JString state)]),
                   (''revision'', JObject [(''version'', v)])])"
  by (simp add: set_state_def subscript_def setitem_def and_then_def)

lemma forbidden_request:
  "forbidden (JObject [(''component'', JObject [(''id'', i), (''state'', st)]),
                       (''revision'', JObject [(''version'', v)])]) f =
     Inr (case f of None \<Rightarrow> False | Some x \<Rightarrow> x \<noteq> [] \<and> st = JString x)"
  by (simp add: forbidden_def subscript2_def subscript_def and_then_def split: option.splits)

text \<open>
  The whole of \<open>change_state\<close> when its read is answered with the three fields and
  its write is answered at all.
\<close>

lemma change_state_run:
  assumes "serve env (server w) (Get u) = (Some r, s1)" and "decoded r = Some d"
    and "subscript2 d ''component'' ''id'' = Inr i"
    and "subscript2 d ''component'' ''state'' = Inr st"
    and "subscript2 d ''revision'' ''version'' = Inr v"
    and "serve env s1 (Post u (Dumps (JObject
           [(''component'', JObject [(''id'', i), (''state'', JString state)]),
            (''revision'', JObject [(''version'', v)])]))) = (Some r2, s2)"
  shows "change_state env u state f w =
     (if (case f of None \<Rightarrow> False | Some x \<Rightarrow> x \<noteq> [] \<and> st = JString x) then
        (Inr (), w\<lparr>server := s1, trace := trace w @ [Http (Get u)],
                  logged := logged w @
                    [Info (''Can't change from '' @ str_opt f @ '' to '' @ state
                           @ '' in this request!Method does not support this!'')]\<rparr>)
      else
        (Inr (),
         w\<lparr>server := s2,
           trace := trace w @
             [Http (Get u),
              Http (Post u (Dumps (JObject
                [(''component'', JObject [(''id'', i), (''state'', JString state)]),
                 (''revision'', JObject [(''version'', v)])])))],
           logged := logged w @ [Info_int (status_code r2)],
           printed := (if status_code r2 \<noteq> 200 then printed w @ [content_text r2]
                       else printed w)\<rparr>))"
  using assms(6)
  by (simp add: change_state_def io_bind_def get_state_run [OF assms(1-5)] lift_def
      forbidden_request set_state_request http_post_def send_def LOGGER_info_def print_def
      io_return_def)

lemma test_serve_Get:
  "serve test_env (st, ver) (Get u) =
     (Some \<lparr>status_code = 200, content_text = [], decoded = Some (component_doc st ver)\<rparr>,
      (st, ver))"
  by (simp add: test_env_def test_serve_def)

lemma component_doc_fields:
  "subscript2 (component_doc st ver) ''component'' ''id'' = Inr (JString ''p1'')"
  "subscript2 (component_doc st ver) ''component'' ''state'' = Inr (JString st)"
  "subscript2 (component_doc st ver) ''revision'' ''version'' = Inr (JInt ver)"
  by (simp_all add: component_doc_def subscript2_def subscript_def and_then_def)

text \<open>
  C1. When the read of \<open>change_state\<close> is answered with a document that has
  \<open>component.id\<close>, \<open>component.state\<close> and \<open>revision.version\<close>, and no forbidden initial
  state is given or the one given differs from the state read, the call issues exactly
  that GET and then exactly one POST to the same URL, whose body is the document
  \<open>{"component": {"id": id, "state": state}, "revision": {"version": version}}\<close> with
  the id and the version as read and the new state.
\<close>

theorem change_state_read_then_write:
  assumes "serve env (server w) (Get u) = (Some r, s1)" and "decoded r = Some d"
    and "subscript2 d ''component'' ''id'' = Inr i"
    and "subscript2 d ''component'' ''state'' = Inr st"
    and "subscript2 d ''revision'' ''version'' = Inr v"
    and "\<forall>f. forbidden_initial_state = Some f \<longrightarrow> st \<noteq> JString f"
  shows "trace (snd (change_state env u state forbidden_initial_state w)) =
     trace w @
       [Http (Get u),
        Http (Post u (Dumps (JObject
          [(''component'', JObject [(''id'', i), (''state'', JString state)]),
           (''revision'', JObject [(''version'', v)])])))]"
proof -
  have "forbidden (JObject [(''component'', JObject [(''id'', i), (''state'', st)]),
                            (''revision'', JObject [(''version'', v)])])
          forbidden_initial_state = Inr False"
    using assms(6) by (simp add: forbidden_request split: option.splits)
  then show ?thesis
    by (simp add: change_state_def io_bind_def get_state_run [OF assms(1-5)] lift_def
        set_state_request http_post_def send_def LOGGER_info_def print_def io_return_def
        split: prod.splits option.splits)
qed

theorem change_state_read_then_write_witness:
  "trace (snd (change_state test_env ''u'' ''RUNNING'' (Some ''DISABLED'')
                 (test_world ''STOPPED'' 3))) =
     [Http (Get ''u''),
      Http (Post ''u'' (Dumps (JObject
        [(''component'', JObject [(''id'', JString ''p1''), (''state'', JString ''RUNNING'')]),
         (''revision'', JObject [(''version'', JInt 3)])])))]"
proof -
  have rd: "serve test_env (server (test_world ''STOPPED'' 3)) (Get ''u'') =
      (Some \<lparr>status_code = 200, content_text = [],
             decoded = Some (component_doc ''STOPPED'' 3)\<rparr>, (''STOPPED'', 3))"
    by (simp add: test_world_def test_serve_Get)
  have dc: "decoded \<lparr>status_code = 200, content_text = [],
                     decoded = Some (component_doc ''STOPPED'' 3)\<rparr> =
      Some (component_doc ''STOPPED'' 3)"
    by simp
  have ne: "\<forall>f. Some ''DISABLED'' = Some f \<longrightarrow> JString ''STOPPED'' \<noteq> JString f"
    by simp
  show ?thesis
    using change_state_read_then_write [OF rd dc component_doc_fields ne, of "''RUNNING''"]
    by (simp add: test_world_def)
qed

text \<open>
  C2, as the code has it. When the state read is the forbidden initial state and that
  state is not the empty string, \<open>change_state\<close> issues the GET and nothing else,
  logs one record and returns normally.
\<close>

theorem change_state_forbidden_no_write:
  assumes "serve env (server w) (Get u) = (Some r, s1)" and "decoded r = Some d"
    and "subscript2 d ''component'' ''id'' = Inr i"
    and "subscript2 d ''component'' ''state'' = Inr (JString f)"
    and "subscript2 d ''revision'' ''version'' = Inr v"
    and "f \<noteq> []"
  shows "change_state env u state (Some f) w =
     (Inr (), w\<lparr>server := s1, trace := trace w @ [Http (Get u)],
               logged := logged w @
                 [Info (''Can't change from '' @ f @ '' to '' @ state
                        @ '' in this request!Method does not support this!'')]\<rparr>)"
proof -
  have "forbidden (JObject [(''component'', JObject [(''id'', i), (''state'', JString f)]),
                            (''revision'', JObject [(''version'', v)])]) (Some f) = Inr True"
    using assms(6) by (simp add: forbidden_request)
  then show ?thesis
    by (simp add: change_state_def io_bind_def get_state_run [OF assms(1-5)] lift_def
        LOGGER_info_def str_opt_def)
qed

theorem change_state_forbidden_no_write_witness:
  "change_state test_env ''u'' ''RUNNING'' (Some ''DISABLED'') (test_world ''DISABLED'' 3) =
     (Inr (), \<lparr>server = (''DISABLED'', 3), trace = [Http (Get ''u'')],
              logged = [Info (''Can't change from DISABLED to RUNNING''
                              @ '' in this request!Method does not support this!'')],
              printed = []\<rparr>)"
proof -
  have rd: "serve test_env (server (test_world ''DISABLED'' 3)) (Get ''u'') =
      (Some \<lparr>status_code = 200, content_text = [],
             decoded = Some (component_doc ''DISABLED'' 3)\<rparr>, (''DISABLED'', 3))"
    by (simp add: test_world_def test_serve_Get)
  have dc: "decoded \<lparr>status_code = 200, content_text = [],
                     decoded = Some (component_doc ''DISABLED'' 3)\<rparr> =
      Some (component_doc ''DISABLED'' 3)"
    by simp
  have ne: "''DISABLED'' \<noteq> []"
    by simp
  show ?thesis
    using change_state_forbidden_no_write [OF rd dc component_doc_fields ne, of "''RUNNING''"]
    by (simp add: test_world_def)
qed

text \<open>
  C2, as stated, fails for the empty string: the guard of \<open>change_state\<close> tests the
  truth of \<open>forbidden_initial_state\<close> before it compares, and the empty string is
  false. With the server reporting the state \<open>""\<close> and \<open>""\<close> given as the forbidden
  initial state, the state read is equal to the forbidden one and the write is issued.
\<close>

theorem change_state_forbidden_empty_counterexample:
  "fst (get_state test_env ''u'' (test_world [] 3)) =
     Inr (JObject [(''component'', JObject [(''id'', JString ''p1''), (''state'', JString [])]),
                   (''revision'', JObject [(''version'', JInt 3)])])
   \<and> trace (snd (change_state test_env ''u'' ''RUNNING'' (Some []) (test_world [] 3))) =
     [Http (Get ''u''),
      Http (Post ''u'' (Dumps (JObject
        [(''component'', JObject [(''id'', JString ''p1''), (''state'', JString ''RUNNING'')]),
         (''revision'', JObject [(''version'', JInt 3)])])))]"
proof -
  have rd: "serve test_env (server (test_world [] 3)) (Get ''u'') =
      (Some \<lparr>status_code = 200, content_text = [], decoded = Some (component_doc [] 3)\<rparr>,
       ([], 3))"
    by (simp add: test_world_def test_serve_Get)
  have dc: "decoded \<lparr>status_code = 200, content_text = [],
                     decoded = Some (component_doc [] 3)\<rparr> = Some (component_doc [] 3)"
    by simp
  have gs: "get_state test_env ''u'' (test_world [] 3) =
      (Inr (JObject [(''component'', JObject [(''id'', JString ''p1''), (''state'', JString [])]),
                     (''revision'', JObject [(''version'', JInt 3)])]),
       (test_world [] 3)\<lparr>server := ([], 3), trace := trace (test_world [] 3) @ [Http (Get ''u'')]\<rparr>)"
    by (rule get_state_run [OF rd dc component_doc_fields])
  have g1: "fst (get_state test_env ''u'' (test_world [] 3)) =
      Inr (JObject [(''component'', JObject [(''id'', JString ''p1''), (''state'', JString [])]),
                    (''revision'', JObject [(''version'', JInt 3)])])"
    by (simp add: gs)
  have tr: "trace (snd (change_state test_env ''u'' ''RUNNING'' (Some []) (test_world [] 3))) =
      trace (test_world [] 3) @
        [Http (Get ''u''),
         Http (Post ''u'' (Dumps (JObject
           [(''component'', JObject [(''id'', JString ''p1''), (''state'', JString ''RUNNING'')]),
            (''revision'', JObject [(''version'', JInt 3)])])))]"
    by (simp add: change_state_def io_bind_def gs lift_def forbidden_request set_state_request
        http_post_def send_def LOGGER_info_def print_def io_return_def
        split: prod.splits option.splits)
  have t0: "trace (test_world [] 3) = []"
    by (simp add: test_world_def)
  show ?thesis
    using g1 tr t0 by simp
qed

text \<open>
  C5. When the write of \<open>change_state\<close> is answered with a status other than 200, the
  call returns normally with no value: the status is logged, the body of the answer is
  printed, and nothing is raised.
\<close>

theorem change_state_swallows_rejection:
  assumes "serve env (server w) (Get u) = (Some r, s1)" and "decoded r = Some d"
    and "subscript2 d ''component'' ''id'' = Inr i"
    and "subscript2 d ''component'' ''state'' = Inr st"
    and "subscript2 d ''revision'' ''version'' = Inr v"
    and "\<forall>f. forbidden_initial_state = Some f \<longrightarrow> st \<noteq> JString f"
    and "serve env s1 (Post u (Dumps (JObject
           [(''component'', JObject [(''id'', i), (''state'', JString state)]),
            (''revision'', JObject [(''version'', v)])]))) = (Some r2, s2)"
    and "status_code r2 \<noteq> 200"
  shows "change_state env u state forbidden_initial_state w =
     (Inr (),
      w\<lparr>server := s2,
        trace := trace w @
          [Http (Get u),
           Http (Post u (Dumps (JObject
             [(''component'', JObject [(''id'', i), (''state'', JString state)]),
              (''revision'', JObject [(''version'', v)])])))],
        logged := logged w @ [Info_int (status_code r2)],
        printed := printed w @ [content_text r2]\<rparr>)"
proof -
  have "forbidden (JObject [(''component'', JObject [(''id'', i), (''state'', st)]),
                            (''revision'', JObject [(''version'', v)])])
          forbidden_initial_state = Inr False"
    using assms(6) by (simp add: forbidden_request split: option.splits)
  then show ?thesis using assms(7,8)
    by (simp add: change_state_def io_bind_def get_state_run [OF assms(1-5)] lift_def
        set_state_request http_post_def send_def LOGGER_info_def print_def io_return_def)
qed

theorem change_state_swallows_rejection_witness:
  "change_state test_env ''u'' ''PAUSED'' None (test_world ''STOPPED'' 3) =
     (Inr (),
      \<lparr>server = (''STOPPED'', 3),
       trace = [Http (Get ''u''),
                Http (Post ''u'' (Dumps (JObject
                  [(''component'', JObject [(''id'', JString ''p1''),
                                           (''state'', JString ''PAUSED'')]),
                   (''revision'', JObject [(''version'', JInt 3)])])))],
       logged = [Info_int 400], printed = [''unknown state'']\<rparr>)"
proof -
  have rd: "serve test_env (server (test_world ''STOPPED'' 3)) (Get ''u'') =
      (Some \<lparr>status_code = 200, content_text = [],
             decoded = Some (component_doc ''STOPPED'' 3)\<rparr>, (''STOPPED'', 3))"
    by (simp add: test_world_def test_serve_Get)
  have dc: "decoded \<lparr>status_code = 200, content_text = [],
                     decoded = Some (component_doc ''STOPPED'' 3)\<rparr> =
      Some (component_doc ''STOPPED'' 3)"
    by simp
  have ne: "\<forall>f. None = Some f \<longrightarrow> JString ''STOPPED'' \<noteq> JString f"
    by simp
  have wr: "serve test_env (''STOPPED'', 3) (Post ''u'' (Dumps (JObject
           [(''component'', JObject [(''id'', JString ''p1''), (''state'', JString ''PAUSED'')]),
            (''revision'', JObject [(''version'', JInt 3)])]))) =
      (Some \<lparr>status_code = 400, content_text = ''unknown state'', decoded = None\<rparr>,
       (''STOPPED'', 3))"
    by (simp add: test_env_def test_serve_def subscript2_def subscript_def and_then_def)
  have st: "status_code \<lparr>status_code = 400, content_text = ''unknown state'',
                         decoded = None\<rparr> \<noteq> 200"
    by simp
  show ?thesis
    using change_state_swallows_rejection [OF rd dc component_doc_fields ne wr st]
    by (simp add: test_world_def)
qed

text \<open>
  The end-to-end scenario of the specification, on the test server. The processor is
  DISABLED at version 3. \<open>start\<close> reads and does not write. \<open>enable\<close> then
  writes STOPPED with version 3, and the \<open>start\<close> after it writes RUNNING with
  version 4, the version after the first write.
\<close>

lemma test_change_state:
  assumes "state \<in> {''RUNNING'', ''STOPPED'', ''DISABLED''}"
  shows "change_state test_env u state f
           \<lparr>server = (st0, ver), trace = tr, logged = lg, printed = pr\<rparr> =
     (if (case f of None \<Rightarrow> False | Some x \<Rightarrow> x \<noteq> [] \<and> st0 = x) then
        (Inr (), \<lparr>server = (st0, ver), trace = tr @ [Http (Get u)],
                 logged = lg @
                    [Info (''Can't change from '' @ str_opt f @ '' to '' @ state
                           @ '' in this request!Method does not support this!'')],
                 printed = pr\<rparr>)
      else
        (Inr (),
         \<lparr>server = (state, ver + 1),
          trace = tr @
             [Http (Get u),
              Http (Post u (Dumps (JObject
                [(''component'', JObject [(''id'', JString ''p1''), (''state'', JString state)]),
                 (''revision'', JObject [(''version'', JInt ver)])])))],
          logged = lg @ [Info_int 200], printed = pr\<rparr>))"
proof -
  let ?w = "\<lparr>server = (st0, ver), trace = tr, logged = lg, printed = pr\<rparr>"
  have rd: "serve test_env (server ?w) (Get u) =
      (Some \<lparr>status_code = 200, content_text = [], decoded = Some (component_doc st0 ver)\<rparr>,
       (st0, ver))"
    by (simp add: test_serve_Get)
  have dc: "decoded \<lparr>status_code = 200, content_text = [],
                     decoded = Some (component_doc st0 ver)\<rparr> = Some (component_doc st0 ver)"
    by simp
  have wr: "serve test_env (st0, ver) (Post u (Dumps (JObject
           [(''component'', JObject [(''id'', JString ''p1''), (''state'', JString state)]),
            (''revision'', JObject [(''version'', JInt ver)])]))) =
      (Some \<lparr>status_code = 200, content_text = [],
             decoded = Some (component_doc state (ver + 1))\<rparr>, (state, ver + 1))"
    using assms
    by (auto simp: test_env_def test_serve_def subscript2_def subscript_def and_then_def)
  show ?thesis
    by (simp add: change_state_run [OF rd dc component_doc_fields wr] split: option.splits)
qed

lemma processor_scenario:
  "io_bind (Processor_start test_env test_p1) (\<lambda>_.
   io_bind (Processor_enable test_env test_p1) (\<lambda>_.
   Processor_start test_env test_p1)) (test_world ''DISABLED'' 3) =
   (Inr (),
    \<lparr>server = (''RUNNING'', 5),
     trace =
       [Http (Get ''http://nifi:8080/nifi-api/processors/p1''),
        Http (Get ''http://nifi:8080/nifi-api/processors/p1''),
        Http (Post ''http://nifi:8080/nifi-api/processors/p1'' (Dumps (JObject
          [(''component'', JObject [(''id'', JString ''p1''), (''state'', JString ''STOPPED'')]),
           (''revision'', JObject [(''version'', JInt 3)])]))),
        Http (Get ''http://nifi:8080/nifi-api/processors/p1''),
        Http (Post ''http://nifi:8080/nifi-api/processors/p1'' (Dumps (JObject
          [(''component'', JObject [(''id'', JString ''p1''), (''state'', JString ''RUNNING'')]),
           (''revision'', JObject [(''version'', JInt 4)])])))],
     logged =
       [Info ''starting url: http://nifi:8080/nifi-api/processors/p1'',
        Info (''Can't change from DISABLED to RUNNING''
              @ '' in this request!Method does not support this!''),
        Info ''enabling url: http://nifi:8080/nifi-api/processors/p1'',
        Info_int 200,
        Info ''starting url: http://nifi:8080/nifi-api/processors/p1'',
        Info_int 200],
     printed = []\<rparr>)"
  by (simp add: Processor_start_def Processor_enable_def io_bind_def LOGGER_info_def
      test_world_def test_change_state str_def str_opt_def test_p1_def)

section \<open>Starting a flow process group\<close>

text \<open>
  C7. \<open>FlowProcessGroup.start\<close> on a handle whose id is a string issues one request
  and no other: a PUT to the handle's URL with the body
  \<open>{"id": "<id>", "state": "RUNNING"}\<close>. No read comes before it, and the body has no
  revision.
\<close>

theorem FlowProcessGroup_start_direct_write:
  assumes "component_id self = JString i"
  shows "trace (snd (FlowProcessGroup_start env self w)) =
     trace w @
       [Http (Put (url self) (Text (''{\"id\": \"'' @ i @ ''\", \"state\": \"RUNNING\"}'')))]"
  using assms
  by (simp add: FlowProcessGroup_start_def io_bind_def LOGGER_info_def lift_def http_put_def
      send_def split: prod.splits option.splits)

theorem FlowProcessGroup_start_direct_write_witness:
  "trace (snd (FlowProcessGroup_start test_env test_flow (test_world ''STOPPED'' 3))) =
     [Http (Put ''http://nifi:8080/nifi-api/flow/process-groups/root/''
              (Text ''{\"id\": \"root\", \"state\": \"RUNNING\"}''))]"
proof -
  have "component_id test_flow = JString ''root''"
    by (simp add: test_flow_def)
  from FlowProcessGroup_start_direct_write [OF this, of test_env "test_world ''STOPPED'' 3"]
  show ?thesis
    by (simp add: test_flow_def test_world_def)
qed

section \<open>Referencing components\<close>

lemma traverse_all_Inr:
  "(\<And>x. x \<in> set xs \<Longrightarrow> f x = Inr (g x)) \<Longrightarrow> traverse f xs = Inr (map g xs)"
  by (induction xs) (simp_all add: and_then_def)

lemma nifi_get_service:
  "serve nifi_env s (Get ''http://nifi:8080/nifi-api/controller-services/cs1'') =
     (Some (ok (service_doc ''cs1'' ''pool'')), s)"
  "serve nifi_env s (Get ''http://nifi:8080/nifi-api/controller-services/cs2'') =
     (Some (ok (service_doc ''cs2'' ''cache'')), s)"
  "serve nifi_env s (Get ''http://nifi:8080/nifi-api/controller-services/cs3'') =
     (Some (ok (service_doc ''cs3'' ''pool'')), s)"
  by (simp_all add: nifi_env_def nifi_serve_def)

lemma service_doc_references:
  "subscript2 (service_doc i n) ''component'' ''referencingComponents'' =
     Inr (JArray [reference_doc ''p1'' ''Processor'', reference_doc ''cs9'' ''ControllerService'',
                  reference_doc ''p2'' ''Processor''])"
  by (simp add: service_doc_def subscript2_def subscript_def and_then_def)

lemma reference_doc_info:
  "referencing_component_info (reference_doc i t) = Inr (JString i, JString t)"
  by (simp add: referencing_component_info_def reference_doc_def subscript2_def subscript_def
      and_then_def)

text \<open>
  C6. When the server answers the read with a document whose
  \<open>component.referencingComponents\<close> is a list, and every entry of the list has
  \<open>component.id\<close> and \<open>component.referenceType\<close>, \<open>get_referencing_components\<close>
  returns one handle for each entry whose reference type is \<open>"Processor"\<close>, and for no
  other entry: the handles are the \<open>Processor\<close>s of the ids of those entries, in the
  order of the list.
\<close>

theorem referencing_processors_in_order:
  assumes "serve env (server w) (Get u) = (Some r, s1)" and "decoded r = Some d"
    and "subscript2 d ''component'' ''referencingComponents'' = Inr (JArray entries)"
    and "\<forall>e\<in>set entries. referencing_component_info e = Inr (ref_id e, ref_type e)"
  shows "\<exists>hs. fst (get_referencing_components env conn u w) = Inr hs
     \<and> list_all2 (\<lambda>h e. Processor env conn (ref_id e) = Inr h) hs
         (filter (\<lambda>e. ref_type e = JString ''Processor'') entries)"
proof -
  let ?keep = "filter (\<lambda>e. ref_type e = JString ''Processor'') entries"
  let ?h = "\<lambda>e. projr (Processor env conn (ref_id e))"
  have infos: "traverse referencing_component_info entries =
      Inr (map (\<lambda>e. (ref_id e, ref_type e)) entries)"
    using assms(4) by (intro traverse_all_Inr) simp
  have kept: "filter (\<lambda>info. snd info = JString PROCESSOR) (map (\<lambda>e. (ref_id e, ref_type e)) entries) =
      map (\<lambda>e. (ref_id e, ref_type e)) ?keep"
    by (simp add: filter_map o_def PROCESSOR_def)
  have hs: "traverse (\<lambda>info. Processor env conn (fst info)) (map (\<lambda>e. (ref_id e, ref_type e)) ?keep) =
      Inr (map ?h ?keep)"
  proof -
    have "traverse (\<lambda>info. Processor env conn (fst info)) (map (\<lambda>e. (ref_id e, ref_type e)) ?keep) =
        Inr (map (\<lambda>info. projr (Processor env conn (fst info))) (map (\<lambda>e. (ref_id e, ref_type e)) ?keep))"
      by (rule traverse_all_Inr) (simp add: Processor_handle)
    then show ?thesis by (simp add: o_def)
  qed
  have run: "fst (get_referencing_components env conn u w) = Inr (map ?h ?keep)"
    by (simp add: get_referencing_components_def io_bind_def get_info_run [OF assms(1,2)]
        lift_def assms(3) py_iter_def and_then_def infos kept hs)
  have "list_all2 (\<lambda>h e. Processor env conn (ref_id e) = Inr h) (map ?h ?keep) ?keep"
    by (simp add: list_all2_map1 list_all2_same Processor_handle)
  with run show ?thesis by blast
qed

theorem referencing_processors_in_order_witness:
  "fst (get_referencing_components nifi_env test_conn
          ''http://nifi:8080/nifi-api/controller-services/cs1'' nifi_world) =
     Inr [test_p1, test_p2]"
proof -
  let ?rid = "\<lambda>e. fst (projr (referencing_component_info e))"
  let ?rty = "\<lambda>e. snd (projr (referencing_component_info e))"
  let ?entries = "[reference_doc ''p1'' ''Processor'', reference_doc ''cs9'' ''ControllerService'',
                  reference_doc ''p2'' ''Processor'']"
  have rd: "serve nifi_env (server nifi_world)
      (Get ''http://nifi:8080/nifi-api/controller-services/cs1'') =
      (Some (ok (service_doc ''cs1'' ''pool'')), ())"
    by (simp add: nifi_get_service)
  have dc: "decoded (ok (service_doc ''cs1'' ''pool'')) = Some (service_doc ''cs1'' ''pool'')"
    by (simp add: ok_def)
  have wf: "\<forall>e\<in>set ?entries. referencing_component_info e = Inr (?rid e, ?rty e)"
    by (simp add: reference_doc_info)
  from referencing_processors_in_order [OF rd dc service_doc_references wf, of test_conn]
  obtain hs where r: "fst (get_referencing_components nifi_env test_conn
          ''http://nifi:8080/nifi-api/controller-services/cs1'' nifi_world) = Inr hs"
    and l: "list_all2 (\<lambda>h e. Processor nifi_env test_conn (?rid e) = Inr h) hs
         (filter (\<lambda>e. ?rty e = JString ''Processor'') ?entries)"
    by blast
  from l have "hs = [test_p1, test_p2]"
    by (simp add: reference_doc_info list_all2_Cons2 test_handles)
  with r show ?thesis by simp
qed

section \<open>Finding a controller service by name\<close>

lemma by_name_loop_last:
  assumes "\<forall>cs\<in>set css. \<forall>w0. fst (get_name env cs w0) = Inr (nm cs)"
  shows "fst (by_name_loop env name css acc w) =
     Inr (case filter (\<lambda>cs. nm cs = JString name) css of [] \<Rightarrow> acc | xs \<Rightarrow> Some (last xs))"
  using assms
proof (induction css arbitrary: acc w)
  case Nil
  then show ?case by (simp add: io_return_def)
next
  case (Cons cs rest)
  obtain w' where gn: "get_name env cs w = (Inr (nm cs), w')"
    using Cons.prems by (metis list.set_intros(1) prod.collapse)
  have rest: "\<forall>c\<in>set rest. \<forall>w0. fst (get_name env c w0) = Inr (nm c)"
    using Cons.prems by simp
  show ?case
    by (simp add: io_bind_def gn LOGGER_info_def Cons.IH [OF rest] split: list.splits)
qed

lemma service_doc_name:
  "subscript2 (service_doc i n) ''component'' ''name'' = Inr (JString n)"
  by (simp add: service_doc_def subscript2_def subscript_def and_then_def)

lemma nifi_get_name:
  "fst (get_name nifi_env (test_service ''cs1'') w0) = Inr (JString ''pool'')"
  "fst (get_name nifi_env (test_service ''cs2'') w0) = Inr (JString ''cache'')"
  "fst (get_name nifi_env (test_service ''cs3'') w0) = Inr (JString ''pool'')"
  by (simp_all add: get_name_def io_bind_def http_get_def send_def test_service_def
      nifi_get_service lift_def response_json_def ok_def and_then_def service_doc_name
      LOGGER_info_def io_return_def)

lemma nifi_listing:
  "get_controller_services nifi_env test_flow nifi_world =
     (Inr [test_service ''cs1'', test_service ''cs2'', test_service ''cs3''],
      \<lparr>server = (),
       trace = [Http (Get ''http://nifi:8080/nifi-api/flow/process-groups/root/controller-services'')],
       logged = [Info ''3 controllers found''], printed = []\<rparr>)"
proof -
  have rd: "serve nifi_env (server nifi_world)
      (Get ''http://nifi:8080/nifi-api/flow/process-groups/root/controller-services'') =
      (Some (ok (JObject [(''controllerServices'',
                           JArray [service_doc ''cs1'' ''pool'', service_doc ''cs2'' ''cache'',
                                   service_doc ''cs3'' ''pool''])])), ())"
    by (simp add: nifi_env_def nifi_serve_def)
  have ids: "subscript2 (service_doc i n) ''component'' ''id'' = Inr (JString i)" for i n
    by (simp add: service_doc_def subscript2_def subscript_def and_then_def)
  have n3: "str_nat (Suc (Suc (Suc 0))) = ''3''"
    by simp
  show ?thesis
    using rd
    by (simp add: get_controller_services_def io_bind_def lift_def getitem_def test_flow_def
        http_get_def send_def response_json_def ok_def subscript_def py_iter_def and_then_def
        ids test_handles LOGGER_info_def io_return_def nifi_world_def n3 del: str_nat.simps)
qed

text \<open>
  C8. Let the listing return the services \<open>css\<close>, and let the server give each listed
  service \<open>cs\<close> the name \<open>nm cs\<close> whenever it is asked. If at least one listed
  service has the name looked for (so also when two or more have it),
  \<open>get_controller_service_by_name\<close> returns the last of them in listing order.
\<close>

theorem by_name_last_match:
  assumes "get_controller_services env self w = (Inr css, w1)"
    and "\<forall>cs\<in>set css. \<forall>w0. fst (get_name env cs w0) = Inr (nm cs)"
    and "filter (\<lambda>cs. nm cs = JString name) css \<noteq> []"
  shows "fst (get_controller_service_by_name env self name w) =
     Inr (Some (last (filter (\<lambda>cs. nm cs = JString name) css)))"
  using assms(3)
  by (simp add: get_controller_service_by_name_def io_bind_def assms(1)
      by_name_loop_last [OF assms(2)] split: list.splits)

theorem by_name_last_match_witness:
  "fst (get_controller_service_by_name nifi_env test_flow ''pool'' nifi_world) =
     Inr (Some (test_service ''cs3''))"
proof -
  let ?nm = "\<lambda>cs. if cs = test_service ''cs2'' then JString ''cache'' else JString ''pool''"
  have ne: "test_service ''cs1'' \<noteq> test_service ''cs2''" "test_service ''cs3'' \<noteq> test_service ''cs2''"
    by (simp_all add: test_service_def)
  have names: "\<forall>cs\<in>set [test_service ''cs1'', test_service ''cs2'', test_service ''cs3''].
      \<forall>w0. fst (get_name nifi_env cs w0) = Inr (?nm cs)"
    by (simp add: nifi_get_name ne)
  have some: "filter (\<lambda>cs. ?nm cs = JString ''pool'')
      [test_service ''cs1'', test_service ''cs2'', test_service ''cs3''] \<noteq> []"
    by (simp add: ne)
  from by_name_last_match [OF nifi_listing names some]
  show ?thesis
    by (simp add: ne)
qed

section \<open>Uploading a template\<close>

lemma group_close_sound:
  "group_close s = Some (g, rest) \<Longrightarrow> s = g @ ''</id>'' @ rest \<and> CHR 0x0A \<notin> set g"
proof (induction s arbitrary: g rest)
  case Nil
  then show ?case by simp
next
  case (Cons c cs)
  show ?case
  proof (cases "if c = CHR 0x0A then None else group_close cs")
    case None
    with Cons.prems have t: "take 5 (c # cs) = ''</id>''" and g: "g = []" and r: "rest = drop 5 (c # cs)"
      by (auto split: if_splits)
    have "c # cs = take 5 (c # cs) @ drop 5 (c # cs)" by (simp only: append_take_drop_id)
    with t g r show ?thesis by simp
  next
    case (Some p)
    obtain g' r' where p: "p = (g', r')" by (cases p)
    from Some p have c: "c \<noteq> CHR 0x0A" and gc: "group_close cs = Some (g', r')"
      by (auto split: if_splits)
    from Cons.prems Some p have "g = c # g'" and "rest = r'" by auto
    with Cons.IH [OF gc] c show ?thesis by simp
  qed
qed

lemma group_close_complete:
  "CHR 0x0A \<notin> set g \<Longrightarrow> group_close (g @ ''</id>'' @ b) \<noteq> None"
proof (induction g)
  case Nil
  then show ?case by (auto split: option.splits)
next
  case (Cons c g)
  then show ?case by (auto split: option.splits)
qed

lemma findall_id_empty_iff: "findall_id t = [] \<longleftrightarrow> \<not> has_id_match t"
proof (induction t rule: findall_id.induct)
  case 1
  show ?case by (simp add: has_id_match_def)
next
  case (2 c cs)
  have tail: "has_id_match (c # cs) \<longleftrightarrow>
      (take 4 (c # cs) = ''<id>'' \<and> group_close (drop 4 (c # cs)) \<noteq> None) \<or> has_id_match cs"
  proof
    assume "has_id_match (c # cs)"
    then obtain a g b where eq: "c # cs = a @ ''<id>'' @ g @ ''</id>'' @ b" and nl: "CHR 0x0A \<notin> set g"
      unfolding has_id_match_def by blast
    show "(take 4 (c # cs) = ''<id>'' \<and> group_close (drop 4 (c # cs)) \<noteq> None) \<or> has_id_match cs"
    proof (cases a)
      case Nil
      with eq have "take 4 (c # cs) = ''<id>''" and "drop 4 (c # cs) = g @ ''</id>'' @ b"
        by simp_all
      with group_close_complete [OF nl, of b] show ?thesis by simp
    next
      case (Cons x a')
      with eq have "cs = a' @ ''<id>'' @ g @ ''</id>'' @ b" by simp
      with nl have "has_id_match cs" unfolding has_id_match_def by blast
      then show ?thesis ..
    qed
  next
    assume "(take 4 (c # cs) = ''<id>'' \<and> group_close (drop 4 (c # cs)) \<noteq> None) \<or> has_id_match cs"
    then show "has_id_match (c # cs)"
    proof
      assume h: "take 4 (c # cs) = ''<id>'' \<and> group_close (drop 4 (c # cs)) \<noteq> None"
      then obtain g rest where gc: "group_close (drop 4 (c # cs)) = Some (g, rest)" by auto
      have "c # cs = take 4 (c # cs) @ drop 4 (c # cs)" by (simp only: append_take_drop_id)
      with h group_close_sound [OF gc] have "c # cs = [] @ ''<id>'' @ g @ ''</id>'' @ rest \<and> CHR 0x0A \<notin> set g"
        by simp
      then show ?thesis unfolding has_id_match_def by blast
    next
      assume "has_id_match cs"
      then obtain a g b where "cs = a @ ''<id>'' @ g @ ''</id>'' @ b" and "CHR 0x0A \<notin> set g"
        unfolding has_id_match_def by blast
      then have "c # cs = (c # a) @ ''<id>'' @ g @ ''</id>'' @ b \<and> CHR 0x0A \<notin> set g" by simp
      then show ?thesis unfolding has_id_match_def by blast
    qed
  qed
  show ?case
  proof (cases "take 4 (c # cs) = ''<id>''")
    case True
    show ?thesis
    proof (cases "group_close (drop 4 (c # cs))")
      case None
      have ih: "findall_id cs = [] \<longleftrightarrow> \<not> has_id_match cs"
        by (rule "2.IH"(1) [OF True None])
      have eq: "findall_id (c # cs) = findall_id cs"
        using True None by auto
      from ih tail None show ?thesis
        unfolding eq by blast
    next
      case (Some p)
      have ne: "findall_id (c # cs) \<noteq> []"
        using True Some by (cases p) auto
      have nn: "group_close (drop 4 (c # cs)) \<noteq> None"
        using Some by simp
      from ne nn tail True show ?thesis
        by blast
    qed
  next
    case False
    have ih: "findall_id cs = [] \<longleftrightarrow> \<not> has_id_match cs"
      by (rule "2.IH"(3) [OF False])
    have eq: "findall_id (c # cs) = findall_id cs"
      using False by auto
    from ih tail False show ?thesis
      unfolding eq by blast
  qed
qed

lemma has_id_match_at: "has_id_match t \<longleftrightarrow> (\<exists>n g. id_match_at t n g)"
  unfolding has_id_match_def id_match_at_def by blast

lemma id_match_at_Suc: "id_match_at (c # cs) (Suc n) g \<longleftrightarrow> id_match_at cs n g"
proof
  assume "id_match_at (c # cs) (Suc n) g"
  then obtain a b where eq: "c # cs = a @ ''<id>'' @ g @ ''</id>'' @ b"
    and len: "length a = Suc n" and nl: "CHR 0x0A \<notin> set g"
    unfolding id_match_at_def by blast
  from len obtain x a' where a: "a = x # a'" and "length a' = n"
    by (cases a) auto
  with eq nl show "id_match_at cs n g"
    unfolding id_match_at_def by auto
next
  assume "id_match_at cs n g"
  then obtain a b where "cs = a @ ''<id>'' @ g @ ''</id>'' @ b"
    and "length a = n" and "CHR 0x0A \<notin> set g"
    unfolding id_match_at_def by blast
  then have "c # cs = (c # a) @ ''<id>'' @ g @ ''</id>'' @ b \<and> length (c # a) = Suc n
      \<and> CHR 0x0A \<notin> set g"
    by simp
  then show "id_match_at (c # cs) (Suc n) g"
    unfolding id_match_at_def by blast
qed

lemma id_match_at_0:
  "id_match_at t 0 g \<longleftrightarrow>
     take 4 t = ''<id>'' \<and> (\<exists>b. drop 4 t = g @ ''</id>'' @ b) \<and> CHR 0x0A \<notin> set g"
proof
  assume "id_match_at t 0 g"
  then obtain b where "t = ''<id>'' @ g @ ''</id>'' @ b" and "CHR 0x0A \<notin> set g"
    unfolding id_match_at_def by auto
  then show "take 4 t = ''<id>'' \<and> (\<exists>b. drop 4 t = g @ ''</id>'' @ b) \<and> CHR 0x0A \<notin> set g"
    by simp
next
  assume h: "take 4 t = ''<id>'' \<and> (\<exists>b. drop 4 t = g @ ''</id>'' @ b) \<and> CHR 0x0A \<notin> set g"
  then obtain b where d: "drop 4 t = g @ ''</id>'' @ b" by blast
  have "t = take 4 t @ drop 4 t" by (simp only: append_take_drop_id)
  with h d have "t = [] @ ''<id>'' @ g @ ''</id>'' @ b \<and> length ([] :: string) = 0
      \<and> CHR 0x0A \<notin> set g"
    by simp
  then show "id_match_at t 0 g"
    unfolding id_match_at_def by blast
qed

lemma group_close_longest:
  "group_close s = Some (g, rest) \<Longrightarrow> s = g' @ ''</id>'' @ b \<Longrightarrow> CHR 0x0A \<notin> set g'
     \<Longrightarrow> length g' \<le> length g"
proof (induction s arbitrary: g rest g')
  case Nil
  then show ?case by simp
next
  case (Cons c cs)
  show ?case
  proof (cases g')
    case Nil
    then show ?thesis by simp
  next
    case (Cons x g'')
    with Cons.prems have c: "c \<noteq> CHR 0x0A" and cs: "cs = g'' @ ''</id>'' @ b"
      and nl: "CHR 0x0A \<notin> set g''"
      by auto
    from group_close_complete [OF nl, of b] cs obtain g1 r1 where
      gc: "group_close cs = Some (g1, r1)" by auto
    with c Cons.prems(1) have "g = c # g1" by simp
    moreover from Cons.IH [OF gc cs nl] have "length g'' \<le> length g1" .
    ultimately show ?thesis using Cons by simp
  qed
qed

lemma findall_id_first: "findall_id t = m # ms \<Longrightarrow> first_id_match t m"
proof (induction t arbitrary: m ms rule: findall_id.induct)
  case 1
  then show ?case by simp
next
  case (2 c cs)
  let ?t = "c # cs"
  have later: "first_id_match ?t m"
    if nz: "\<And>g'. \<not> id_match_at ?t 0 g'" and fm: "first_id_match cs m" for m
  proof -
    from fm obtain n where n: "id_match_at cs n m"
      and mn: "\<And>n' g'. id_match_at cs n' g' \<Longrightarrow> n \<le> n' \<and> (n' = n \<longrightarrow> length g' \<le> length m)"
      unfolding first_id_match_def by blast
    have "id_match_at ?t (Suc n) m"
      using n by (simp add: id_match_at_Suc)
    moreover have "Suc n \<le> n' \<and> (n' = Suc n \<longrightarrow> length g' \<le> length m)"
      if h: "id_match_at ?t n' g'" for n' g'
    proof (cases n')
      case 0
      with h nz show ?thesis by blast
    next
      case (Suc k)
      with h have "id_match_at cs k g'" by (simp add: id_match_at_Suc)
      from mn [OF this] Suc show ?thesis by simp
    qed
    ultimately show ?thesis
      unfolding first_id_match_def by blast
  qed
  show ?case
  proof (cases "take 4 ?t = ''<id>''")
    case True
    show ?thesis
    proof (cases "group_close (drop 4 ?t)")
      case None
      have eq: "findall_id ?t = findall_id cs"
        using True None by auto
      with "2.prems" have "findall_id cs = m # ms" by simp
      from "2.IH"(1) [OF True None this] have fm: "first_id_match cs m" .
      have "\<not> id_match_at ?t 0 g'" for g'
      proof
        assume "id_match_at ?t 0 g'"
        then obtain b where "drop 4 ?t = g' @ ''</id>'' @ b" and "CHR 0x0A \<notin> set g'"
          unfolding id_match_at_0 by blast
        with group_close_complete [of g' b] None show False by simp
      qed
      from later [OF this fm] show ?thesis .
    next
      case (Some p)
      obtain g rest where p: "p = (g, rest)" by (cases p)
      with Some have gc: "group_close (drop 4 ?t) = Some (g, rest)" by simp
      have "findall_id ?t = g # findall_id rest"
        using True gc by auto
      with "2.prems" have m: "m = g" by simp
      from group_close_sound [OF gc] have d: "drop 4 ?t = g @ ''</id>'' @ rest"
        and nl: "CHR 0x0A \<notin> set g" by simp_all
      have "id_match_at ?t 0 g"
        unfolding id_match_at_0 using True d nl by blast
      moreover have "0 \<le> n' \<and> (n' = 0 \<longrightarrow> length g' \<le> length g)"
        if h: "id_match_at ?t n' g'" for n' g'
      proof (cases n')
        case 0
        with h have "id_match_at ?t 0 g'" by simp
        then obtain b where "drop 4 ?t = g' @ ''</id>'' @ b" and "CHR 0x0A \<notin> set g'"
          unfolding id_match_at_0 by blast
        from group_close_longest [OF gc this] 0 show ?thesis by simp
      next
        case (Suc k)
        then show ?thesis by simp
      qed
      ultimately show ?thesis
        unfolding first_id_match_def m by blast
    qed
  next
    case False
    have eq: "findall_id ?t = findall_id cs"
      using False by auto
    with "2.prems" have "findall_id cs = m # ms" by simp
    from "2.IH"(3) [OF False this] have fm: "first_id_match cs m" .
    have "\<not> id_match_at ?t 0 g'" for g'
      using False unfolding id_match_at_0 by blast
    from later [OF this fm] show ?thesis .
  qed
qed

lemma first_id_match_unique:
  assumes "first_id_match t g" and "first_id_match t g'"
  shows "g = g'"
proof -
  from assms(1) obtain n where n: "id_match_at t n g"
    and mn: "\<And>k h. id_match_at t k h \<Longrightarrow> n \<le> k \<and> (k = n \<longrightarrow> length h \<le> length g)"
    unfolding first_id_match_def by blast
  from assms(2) obtain n' where n': "id_match_at t n' g'"
    and mn': "\<And>k h. id_match_at t k h \<Longrightarrow> n' \<le> k \<and> (k = n' \<longrightarrow> length h \<le> length g')"
    unfolding first_id_match_def by blast
  from mn [OF n'] mn' [OF n] have nn: "n' = n" by simp
  with mn [OF n'] mn' [OF n] have len: "length g = length g'" by simp
  from n obtain a b where t1: "t = a @ ''<id>'' @ g @ ''</id>'' @ b" and la: "length a = n"
    unfolding id_match_at_def by blast
  from n' obtain a' b' where t2: "t = a' @ ''<id>'' @ g' @ ''</id>'' @ b'" and la': "length a' = n'"
    unfolding id_match_at_def by blast
  from t1 t2 la la' nn have "''<id>'' @ g @ ''</id>'' @ b = ''<id>'' @ g' @ ''</id>'' @ b'"
    by simp
  then have "g @ ''</id>'' @ b = g' @ ''</id>'' @ b'" by simp
  with len show ?thesis by simp
qed

lemma Template_handle:
  "Template env conn i =
     Inr \<lparr>component_type = ''Template'', component_id = i, nifi_connection = conn,
          component_url_base = url_base conn,
          template = ''{url_base}/nifi-api/templates/{component_id}/'',
          url = url_base conn @ ''/nifi-api/templates/'' @ format_value env i @ ''/'',
          endpoints = [(''download'', ''download'')]\<rparr>"
  by (simp add: Template_def NifiComponent_init_Template and_then_def)

text \<open>
  C10. When the file can be read and the server answers the upload: if the body has no
  match of \<open><id>(.*)</id>\<close>, \<open>upload_template\<close> raises \<open>IndexError\<close>; if it has
  one, it has a first match, and \<open>upload_template\<close> returns the \<open>Template\<close> whose id
  is the group of the first match, that is, of the leftmost match with the longest
  group.
\<close>

theorem upload_template_first_match_or_IndexError:
  assumes "getitem (endpoints self) ''upload_template'' = Inr ep"
    and "open_rb env template_path = Some content"
    and "serve env (server w)
           (Upload (url self @ ep) [(''template'', basename template_path, content, ''text/xml'')]) =
         (Some r, s1)"
  shows "(\<not> has_id_match (content_text r) \<longrightarrow>
            fst (upload_template env self template_path w) = Inl IndexError)
     \<and> (has_id_match (content_text r) \<longrightarrow> (\<exists>g. first_id_match (content_text r) g))
     \<and> (\<forall>g. first_id_match (content_text r) g \<longrightarrow>
            (\<exists>h. fst (upload_template env self template_path w) = Inr h
               \<and> Template env (nifi_connection self) (JString g) = Inr h
               \<and> component_id h = JString g))"
proof -
  have run: "fst (upload_template env self template_path w) =
       (case findall_id (content_text r) of
          [] \<Rightarrow> Inl IndexError
        | m # ms \<Rightarrow> Template env (nifi_connection self) (JString m))"
    using assms
    by (simp add: upload_template_def io_bind_def lift_def http_upload_def send_def
        split: list.splits)
  have none: "fst (upload_template env self template_path w) = Inl IndexError"
    if "\<not> has_id_match (content_text r)"
  proof -
    from that have "findall_id (content_text r) = []"
      by (simp add: findall_id_empty_iff)
    with run show ?thesis by simp
  qed
  have some: "\<exists>g. first_id_match (content_text r) g" if "has_id_match (content_text r)"
  proof -
    from that have "findall_id (content_text r) \<noteq> []"
      by (simp add: findall_id_empty_iff)
    then obtain m ms where "findall_id (content_text r) = m # ms"
      by (cases "findall_id (content_text r)") auto
    from findall_id_first [OF this] show ?thesis ..
  qed
  have first: "\<exists>h. fst (upload_template env self template_path w) = Inr h
               \<and> Template env (nifi_connection self) (JString g) = Inr h
               \<and> component_id h = JString g"
    if fm: "first_id_match (content_text r) g" for g
  proof -
    from fm have "has_id_match (content_text r)"
      unfolding first_id_match_def has_id_match_at by blast
    then have "findall_id (content_text r) \<noteq> []"
      by (simp add: findall_id_empty_iff)
    then obtain m ms where fa: "findall_id (content_text r) = m # ms"
      by (cases "findall_id (content_text r)") auto
    from first_id_match_unique [OF findall_id_first [OF fa] fm] have "m = g" .
    with run fa show ?thesis
      by (simp add: Template_handle)
  qed
  from none some first show ?thesis by blast
qed

theorem upload_template_first_match_or_IndexError_witness:
  "fst (upload_template nifi_env (test_group ''g2'') ''/tmp/flow.xml'' nifi_world) = Inl IndexError
   \<and> fst (upload_template nifi_env (test_group ''root'') ''/tmp/flow.xml'' nifi_world) =
     Inr \<lparr>component_type = ''Template'', component_id = JString ''abc-123'',
          nifi_connection = test_conn, component_url_base = ''http://nifi:8080'',
          template = ''{url_base}/nifi-api/templates/{component_id}/'',
          url = ''http://nifi:8080/nifi-api/templates/abc-123/'',
          endpoints = [(''download'', ''download'')]\<rparr>"
proof -
  have ep: "getitem (endpoints (test_group i)) ''upload_template'' = Inr ''templates/upload''" for i
    by (simp add: test_group_def getitem_def)
  have fl: "open_rb nifi_env ''/tmp/flow.xml'' = Some ''<template/>''"
    by (simp add: nifi_env_def)
  have up2: "serve nifi_env (server nifi_world)
      (Upload (url (test_group ''g2'') @ ''templates/upload'')
         [(''template'', basename ''/tmp/flow.xml'', ''<template/>'', ''text/xml'')]) =
      (Some \<lparr>status_code = 500, content_text = ''Internal Server Error'', decoded = None\<rparr>, ())"
    by (simp add: nifi_env_def nifi_serve_def test_group_def)
  have up1: "serve nifi_env (server nifi_world)
      (Upload (url (test_group ''root'') @ ''templates/upload'')
         [(''template'', basename ''/tmp/flow.xml'', ''<template/>'', ''text/xml'')]) =
      (Some \<lparr>status_code = 201,
             content_text =
               ''<templateEntity><template><id>abc-123</id></template></templateEntity>'',
             decoded = None\<rparr>, ())"
    by (simp add: nifi_env_def nifi_serve_def test_group_def)
  have "findall_id ''Internal Server Error'' = []"
    by simp
  with findall_id_empty_iff [of "''Internal Server Error''"]
  have none: "\<not> has_id_match ''Internal Server Error''"
    by blast
  have "findall_id ''<templateEntity><template><id>abc-123</id></template></templateEntity>'' =
      [''abc-123'']"
    by simp
  from findall_id_first [OF this]
  have first: "first_id_match
      ''<templateEntity><template><id>abc-123</id></template></templateEntity>'' ''abc-123''" .
  from upload_template_first_match_or_IndexError [OF ep fl up2] none
  have a: "fst (upload_template nifi_env (test_group ''g2'') ''/tmp/flow.xml'' nifi_world) =
      Inl IndexError"
    by simp
  from upload_template_first_match_or_IndexError [OF ep fl up1] first
  obtain h where "fst (upload_template nifi_env (test_group ''root'') ''/tmp/flow.xml'' nifi_world) =
      Inr h"
    and "Template nifi_env (nifi_connection (test_group ''root'')) (JString ''abc-123'') = Inr h"
    by (auto simp del: findall_id.simps)
  then have b: "fst (upload_template nifi_env (test_group ''root'') ''/tmp/flow.xml'' nifi_world) =
     Inr \<lparr>component_type = ''Template'', component_id = JString ''abc-123'',
          nifi_connection = test_conn, component_url_base = ''http://nifi:8080'',
          template = ''{url_base}/nifi-api/templates/{component_id}/'',
          url = ''http://nifi:8080/nifi-api/templates/abc-123/'',
          endpoints = [(''download'', ''download'')]\<rparr>"
    by (simp add: Template_handle test_group_def test_conn_def format_value_def)
  from a b show ?thesis by simp
qed

section \<open>Restarting a controller service\<close>

lemma io_bind_Inr:
  "io_bind m f w = (Inr y, w'') \<Longrightarrow> \<exists>x w'. m w = (Inr x, w') \<and> f x w' = (Inr y, w'')"
  by (auto simp: io_bind_def split: prod.splits sum.splits)

lemma io_map_two:
  assumes "io_map f [x1, x2] w = (Inr ys, w')"
  shows "\<exists>y1 y2 w1. f x1 w = (Inr y1, w1) \<and> f x2 w1 = (Inr y2, w')"
  using assms
  by (auto simp: io_bind_def io_return_def split: prod.splits sum.splits)

lemma replay_append: "replay env s (xs @ ys) = replay env (replay env s xs) ys"
  by (induction env s xs rule: replay.induct) simp_all

lemma get_state_Inr_read:
  assumes "get_state env u w = (Inr rd, w1)"
  shows "\<exists>r d i st v.
     serve env (server w) (Get u) = (Some r, server w1) \<and> decoded r = Some d
     \<and> subscript2 d ''component'' ''id'' = Inr i
     \<and> subscript2 d ''component'' ''state'' = Inr st
     \<and> subscript2 d ''revision'' ''version'' = Inr v"
  using assms
  by (auto simp: get_state_def get_info_def io_bind_def lift_def http_get_def send_def
      response_json_def and_then_def split: prod.splits sum.splits option.splits)

lemma change_state_at:
  assumes "change_state env u st f w = (Inr (), w')"
  shows "\<exists>evs. trace w' = trace w @ evs \<and> server w' = replay env (server w) evs
     \<and> state_change_at env (server w) u st f evs"
proof -
  obtain rd w1 where gs: "get_state env u w = (Inr rd, w1)"
    using io_bind_Inr [OF assms [unfolded change_state_def]] by blast
  from get_state_Inr_read [OF gs] obtain r d i cur v where
    rd: "serve env (server w) (Get u) = (Some r, server w1)" and dc: "decoded r = Some d"
    and fi: "subscript2 d ''component'' ''id'' = Inr i"
    and fs: "subscript2 d ''component'' ''state'' = Inr cur"
    and fv: "subscript2 d ''revision'' ''version'' = Inr v"
    by blast
  let ?skip = "case f of None \<Rightarrow> False | Some x \<Rightarrow> x \<noteq> [] \<and> cur = JString x"
  let ?post = "Post u (Dumps (JObject
      [(''component'', JObject [(''id'', i), (''state'', JString st)]),
       (''revision'', JObject [(''version'', v)])]))"
  show ?thesis
  proof (cases ?skip)
    case True
    have run: "change_state env u st f w =
        (Inr (), w\<lparr>server := server w1, trace := trace w @ [Http (Get u)],
                  logged := logged w @
                    [Info (''Can't change from '' @ str_opt f @ '' to '' @ st
                           @ '' in this request!Method does not support this!'')]\<rparr>)"
      using True
      by (simp add: change_state_def io_bind_def get_state_run [OF rd dc fi fs fv] lift_def
          forbidden_request LOGGER_info_def)
    have "state_change_at env (server w) u st f [Http (Get u)]"
      using True by (simp add: state_change_at_def rd dc fi fs fv)
    moreover have "trace w' = trace w @ [Http (Get u)]"
      and "server w' = replay env (server w) [Http (Get u)]"
      using run assms by (auto simp: rd)
    ultimately show ?thesis by blast
  next
    case False
    obtain r2 s2 where wr: "serve env (server w1) ?post = (r2, s2)"
      by (cases "serve env (server w1) ?post")
    have "r2 \<noteq> None"
    proof
      assume "r2 = None"
      with wr False have "fst (change_state env u st f w) = Inl RequestException"
        by (simp add: change_state_def io_bind_def get_state_run [OF rd dc fi fs fv] lift_def
            forbidden_request set_state_request http_post_def send_def)
      with assms show False by simp
    qed
    then obtain r3 where r3: "serve env (server w1) ?post = (Some r3, s2)"
      using wr by auto
    from change_state_run [OF rd dc fi fs fv r3, of f] False assms
    have "trace w' = trace w @ [Http (Get u), Http ?post]" and "server w' = s2"
      by auto
    moreover have "replay env (server w) [Http (Get u), Http ?post] = s2"
      by (simp add: rd r3)
    moreover have "state_change_at env (server w) u st f [Http (Get u), Http ?post]"
      using False by (simp add: state_change_at_def rd dc fi fs fv)
    ultimately show ?thesis by metis
  qed
qed

lemma LOGGER_info_same:
  "io_bind (LOGGER_info m) f w = (r, w') \<Longrightarrow>
     \<exists>w0. trace w0 = trace w \<and> server w0 = server w \<and> f () w0 = (r, w')"
  by (rule exI [of _ "w\<lparr>logged := logged w @ [m]\<rparr>"]) (simp add: io_bind_def LOGGER_info_def)

lemma sleep_settles:
  "io_bind (sleep env n) f w = (r, w') \<Longrightarrow>
     \<exists>w0. trace w0 = trace w @ [Sleep n] \<and> server w0 = replay env (server w) [Sleep n]
        \<and> f () w0 = (r, w')"
  by (rule exI [of _ "w\<lparr>server := settle env n (server w), trace := trace w @ [Sleep n]\<rparr>"])
     (simp add: io_bind_def sleep_def)

lemma send_replay:
  "send env rq w = (r, w1) \<Longrightarrow>
     trace w1 = trace w @ [Http rq] \<and> server w1 = replay env (server w) [Http rq]"
  by (auto simp: send_def split: prod.splits option.splits)

lemma get_referencing_components_replay:
  "get_referencing_components env conn u w = (r, w1) \<Longrightarrow>
     trace w1 = trace w @ [Http (Get u)] \<and> server w1 = replay env (server w) [Http (Get u)]"
  by (auto simp: get_referencing_components_def get_info_def http_get_def io_bind_def lift_def
      dest!: send_replay split: prod.splits sum.splits)

lemma logged_change_state_at:
  assumes "io_bind (LOGGER_info m) (\<lambda>_. change_state env u st f) w = (Inr (), w')"
  shows "\<exists>evs. trace w' = trace w @ evs \<and> server w' = replay env (server w) evs
     \<and> state_change_at env (server w) u st f evs"
proof -
  obtain w0 where "trace w0 = trace w" and "server w0 = server w"
    and "change_state env u st f w0 = (Inr (), w')"
    using LOGGER_info_same [OF assms] by blast
  with change_state_at [of env u st f w0 w'] show ?thesis by auto
qed

lemma referencing_phase_at:
  assumes "io_bind (get_referencing_components env conn u)
             (io_map (\<lambda>p. io_bind (LOGGER_info (m p)) (\<lambda>_. change_state env (url p) st f))) w =
           (Inr ys, w')"
    and "\<forall>w0 ps. fst (get_referencing_components env conn u w0) = Inr ps \<longrightarrow> ps = [p1, p2]"
  shows "\<exists>a b. trace w' = trace w @ [Http (Get u)] @ a @ b
     \<and> server w' = replay env (server w) ([Http (Get u)] @ a @ b)
     \<and> state_change_at env (replay env (server w) [Http (Get u)]) (url p1) st f a
     \<and> state_change_at env (replay env (server w) ([Http (Get u)] @ a)) (url p2) st f b"
proof -
  let ?op = "\<lambda>p. io_bind (LOGGER_info (m p)) (\<lambda>_. change_state env (url p) st f)"
  obtain ps w0 where refs: "get_referencing_components env conn u w = (Inr ps, w0)"
    and mp: "io_map ?op ps w0 = (Inr ys, w')"
    using io_bind_Inr [OF assms(1)] by blast
  from refs assms(2) have ps: "ps = [p1, p2]" by (metis fst_conv)
  from get_referencing_components_replay [OF refs]
  have t0: "trace w0 = trace w @ [Http (Get u)]"
    and s0: "server w0 = replay env (server w) [Http (Get u)]" by simp_all
  from mp have "io_map ?op [p1, p2] w0 = (Inr ys, w')"
    unfolding ps .
  from io_map_two [OF this] obtain w1 where c1: "?op p1 w0 = (Inr (), w1)"
    and c2: "?op p2 w1 = (Inr (), w')"
    by auto
  from logged_change_state_at [OF c1] obtain a where
    a: "trace w1 = trace w0 @ a" "server w1 = replay env (server w0) a"
      "state_change_at env (server w0) (url p1) st f a" by blast
  from logged_change_state_at [OF c2] obtain b where
    b: "trace w' = trace w1 @ b" "server w' = replay env (server w1) b"
      "state_change_at env (server w1) (url p2) st f b" by blast
  have "trace w' = trace w @ [Http (Get u)] @ a @ b"
    by (simp add: b(1) a(1) t0)
  moreover have "server w' = replay env (server w) ([Http (Get u)] @ a @ b)"
    by (simp only: b(2) a(2) s0 replay_append)
  moreover have "state_change_at env (replay env (server w) [Http (Get u)]) (url p1) st f a"
    using a(3) by (simp only: s0)
  moreover have "state_change_at env (replay env (server w) ([Http (Get u)] @ a)) (url p2) st f b"
    using b(3) by (simp only: a(2) s0 replay_append)
  ultimately show ?thesis by blast
qed

lemma nifi_references:
  "fst (get_referencing_components nifi_env test_conn
          ''http://nifi:8080/nifi-api/controller-services/cs1'' w0) = Inr [test_p1, test_p2]"
proof -
  have rd: "serve nifi_env (server w0)
      (Get ''http://nifi:8080/nifi-api/controller-services/cs1'') =
      (Some (ok (service_doc ''cs1'' ''pool'')), server w0)"
    by (simp add: nifi_get_service)
  have dc: "decoded (ok (service_doc ''cs1'' ''pool'')) = Some (service_doc ''cs1'' ''pool'')"
    by (simp add: ok_def)
  show ?thesis
    by (simp add: get_referencing_components_def io_bind_def get_info_run [OF rd dc] lift_def
        service_doc_references py_iter_def and_then_def reference_doc_info PROCESSOR_def
        test_handles)
qed

lemma nifi_get_processor:
  "serve nifi_env s (Get ''http://nifi:8080/nifi-api/processors/p1'') =
     (Some (ok (processor_doc ''p1'' ''RUNNING'' 1)), s)"
  "serve nifi_env s (Get ''http://nifi:8080/nifi-api/processors/p2'') =
     (Some (ok (processor_doc ''p2'' ''DISABLED'' 7)), s)"
  by (simp_all add: nifi_env_def nifi_serve_def)

lemma nifi_post:
  "serve nifi_env s (Post u data) =
     (Some \<lparr>status_code = 200, content_text = [], decoded = None\<rparr>, s)"
  by (simp add: nifi_env_def nifi_serve_def)

lemma nifi_docs:
  "subscript2 (service_doc i n) ''component'' ''id'' = Inr (JString i)"
  "subscript2 (service_doc i n) ''component'' ''state'' = Inr (JString ''ENABLED'')"
  "subscript2 (service_doc i n) ''revision'' ''version'' = Inr (JInt 2)"
  "subscript2 (processor_doc i st ver) ''component'' ''id'' = Inr (JString i)"
  "subscript2 (processor_doc i st ver) ''component'' ''state'' = Inr (JString st)"
  "subscript2 (processor_doc i st ver) ''revision'' ''version'' = Inr (JInt ver)"
  by (simp_all add: service_doc_def processor_doc_def subscript2_def subscript_def and_then_def)

lemma io_bind_fst:
  assumes "\<And>w. fst (m w) = Inr a" and "\<And>w. fst (f a w) = Inr b"
  shows "fst (io_bind m f w) = Inr b"
proof -
  obtain w1 where "m w = (Inr a, w1)"
    using assms(1) [of w] by (cases "m w") simp
  then show ?thesis
    by (simp add: io_bind_def assms(2))
qed

lemma change_state_returns:
  assumes "serve env (server w) (Get u) = (Some r, s1)" and "decoded r = Some d"
    and "subscript2 d ''component'' ''id'' = Inr i"
    and "subscript2 d ''component'' ''state'' = Inr st"
    and "subscript2 d ''revision'' ''version'' = Inr v"
    and "\<And>s p. fst (serve env s (Post u p)) \<noteq> None"
  shows "fst (change_state env u state f w) = Inr ()"
proof -
  let ?p = "Dumps (JObject [(''component'', JObject [(''id'', i), (''state'', JString state)]),
                            (''revision'', JObject [(''version'', v)])])"
  obtain r2 s2 where "serve env s1 (Post u ?p) = (Some r2, s2)"
    using assms(6) [of s1 ?p] by (cases "serve env s1 (Post u ?p)") auto
  then show ?thesis
    by (simp add: change_state_def io_bind_def get_state_run [OF assms(1-5)] lift_def
        forbidden_request set_state_request http_post_def send_def LOGGER_info_def print_def
        io_return_def)
qed

lemma nifi_change_state_returns:
  "fst (change_state nifi_env ''http://nifi:8080/nifi-api/controller-services/cs1'' state f w) = Inr ()"
  "fst (change_state nifi_env ''http://nifi:8080/nifi-api/processors/p1'' state f w) = Inr ()"
  "fst (change_state nifi_env ''http://nifi:8080/nifi-api/processors/p2'' state f w) = Inr ()"
proof -
  have dc: "decoded (ok d) = Some d" for d
    by (simp add: ok_def)
  have post: "fst (serve nifi_env s (Post u p)) \<noteq> None" for s u p
    by (simp add: nifi_post)
  show "fst (change_state nifi_env ''http://nifi:8080/nifi-api/controller-services/cs1'' state f w) = Inr ()"
    by (rule change_state_returns [OF nifi_get_service(1) dc nifi_docs(1-3) post])
  show "fst (change_state nifi_env ''http://nifi:8080/nifi-api/processors/p1'' state f w) = Inr ()"
    by (rule change_state_returns [OF nifi_get_processor(1) dc nifi_docs(4-6) post])
  show "fst (change_state nifi_env ''http://nifi:8080/nifi-api/processors/p2'' state f w) = Inr ()"
    by (rule change_state_returns [OF nifi_get_processor(2) dc nifi_docs(4-6) post])
qed

lemma nifi_methods_return:
  "fst (Processor_stop nifi_env test_p1 w) = Inr ()"
  "fst (Processor_stop nifi_env test_p2 w) = Inr ()"
  "fst (Processor_start nifi_env test_p1 w) = Inr ()"
  "fst (Processor_start nifi_env test_p2 w) = Inr ()"
  "fst (ControllerService_disable nifi_env (test_service ''cs1'') w) = Inr ()"
  "fst (ControllerService_enable nifi_env (test_service ''cs1'') w) = Inr ()"
  by (simp_all add: Processor_stop_def Processor_start_def ControllerService_disable_def
      ControllerService_enable_def io_bind_def LOGGER_info_def nifi_change_state_returns
      test_p1_def test_p2_def test_service_def)

lemma nifi_phases_return:
  "fst (stop_referencing_components nifi_env (test_service ''cs1'') w) = Inr [(), ()]"
  "fst (start_referencing_components nifi_env (test_service ''cs1'') w) = Inr [(), ()]"
proof -
  have refs: "fst (ControllerService_get_referencing_components nifi_env (test_service ''cs1'') w0) =
      Inr [test_p1, test_p2]" for w0
    using nifi_references [of w0]
    by (simp add: ControllerService_get_referencing_components_def test_service_def)
  have two: "fst (io_map f [test_p1, test_p2] w0) = Inr [(), ()]"
    if "\<And>w1. fst (f test_p1 w1) = Inr ()" and "\<And>w1. fst (f test_p2 w1) = Inr ()"
    for f :: "NifiComponent \<Rightarrow> (unit, unit) io" and w0
  proof -
    have "fst (io_bind (io_map f []) (\<lambda>ys. io_return (() # ys)) w1) = Inr [()]" for w1
      by (simp add: io_bind_def io_return_def)
    then have "fst (io_bind (f test_p2) (\<lambda>y. io_bind (io_map f []) (\<lambda>ys. io_return (y # ys))) w1) = Inr [()]" for w1
      by (intro io_bind_fst [where a = "()"] that) 
    then have "fst (io_bind (io_map f [test_p2]) (\<lambda>ys. io_return (() # ys)) w1) = Inr [(), ()]" for w1
      by (intro io_bind_fst [where a = "[()]"]) (simp_all add: io_return_def)
    then show ?thesis
      unfolding io_map.simps by (intro io_bind_fst [where a = "()"] that)
  qed
  show "fst (stop_referencing_components nifi_env (test_service ''cs1'') w) = Inr [(), ()]"
    unfolding stop_referencing_components_def
    by (intro io_bind_fst [where a = "[test_p1, test_p2]"] refs two nifi_methods_return)
  show "fst (start_referencing_components nifi_env (test_service ''cs1'') w) = Inr [(), ()]"
    unfolding start_referencing_components_def
    by (intro io_bind_fst [where a = "[test_p1, test_p2]"] refs two nifi_methods_return)
qed

lemma nifi_restart_returns:
  "fst (ControllerService_restart nifi_env (test_service ''cs1'') w) = Inr ()"
proof -
  have lg: "fst (LOGGER_info m w0) = Inr ()" for m and w0 :: "unit world"
    by (simp add: LOGGER_info_def)
  have sl: "fst (sleep nifi_env n w0) = Inr ()" for n w0
    by (simp add: sleep_def)
  show ?thesis
    unfolding ControllerService_restart_def
    by (intro io_bind_fst [where a = "()"] io_bind_fst [where a = "[(), ()]"] lg sl
        nifi_methods_return nifi_phases_return)
qed

lemma nifi_state_change_at:
  "state_change_at nifi_env s ''http://nifi:8080/nifi-api/processors/p1'' st (Some ''DISABLED'') evs
     \<longleftrightarrow> evs = [Http (Get ''http://nifi:8080/nifi-api/processors/p1''),
                Http (Post ''http://nifi:8080/nifi-api/processors/p1'' (Dumps (JObject
                  [(''component'', JObject [(''id'', JString ''p1''), (''state'', JString st)]),
                   (''revision'', JObject [(''version'', JInt 1)])])))]"
  "state_change_at nifi_env s ''http://nifi:8080/nifi-api/processors/p2'' st (Some ''DISABLED'') evs
     \<longleftrightarrow> evs = [Http (Get ''http://nifi:8080/nifi-api/processors/p2'')]"
  "state_change_at nifi_env s ''http://nifi:8080/nifi-api/controller-services/cs1'' st None evs
     \<longleftrightarrow> evs = [Http (Get ''http://nifi:8080/nifi-api/controller-services/cs1''),
                Http (Post ''http://nifi:8080/nifi-api/controller-services/cs1'' (Dumps (JObject
                  [(''component'', JObject [(''id'', JString ''cs1''), (''state'', JString st)]),
                   (''revision'', JObject [(''version'', JInt 2)])])))]"
  by (simp_all add: state_change_at_def nifi_get_processor nifi_get_service ok_def nifi_docs)

text \<open>
  C4. Let the referencing components of a controller service resolve to the two
  processors \<open>p1\<close> and \<open>p2\<close> whenever they are looked up. A \<open>restart\<close> that
  returns leaves exactly this in the trace, in this order: the lookup, the stop of
  \<open>p1\<close>, the stop of \<open>p2\<close>, a sleep, the disable of the service, a sleep, the
  enable of the service, a sleep, the second lookup, the start of \<open>p1\<close>, the start of
  \<open>p2\<close>. Each of the six state changes is its read followed by its write, with the
  id and the version as the server gave them at that moment; a stop or a start is the
  read alone exactly when the state read is DISABLED, and the disable and the enable
  always write.
\<close>

theorem restart_order:
  assumes "ControllerService_restart env self w = (Inr (), w')"
    and "\<forall>w0 ps. fst (get_referencing_components env (nifi_connection self) (url self) w0) = Inr ps
           \<longrightarrow> ps = [p1, p2]"
  shows "\<exists>stop1 stop2 disable enable start1 start2.
     trace w' =
       trace w @ [Http (Get (url self))] @ stop1 @ stop2 @ [Sleep 5] @ disable @ [Sleep 5]
         @ enable @ [Sleep 5] @ [Http (Get (url self))] @ start1 @ start2
     \<and> state_change_at env (replay env (server w) [Http (Get (url self))])
           (url p1) ''STOPPED'' (Some ''DISABLED'') stop1
     \<and> state_change_at env (replay env (server w) ([Http (Get (url self))] @ stop1))
           (url p2) ''STOPPED'' (Some ''DISABLED'') stop2
     \<and> state_change_at env
           (replay env (server w) ([Http (Get (url self))] @ stop1 @ stop2 @ [Sleep 5]))
           (url self) ''DISABLED'' None disable
     \<and> state_change_at env
           (replay env (server w)
              ([Http (Get (url self))] @ stop1 @ stop2 @ [Sleep 5] @ disable @ [Sleep 5]))
           (url self) ''ENABLED'' None enable
     \<and> state_change_at env
           (replay env (server w)
              ([Http (Get (url self))] @ stop1 @ stop2 @ [Sleep 5] @ disable @ [Sleep 5]
                 @ enable @ [Sleep 5] @ [Http (Get (url self))]))
           (url p1) ''RUNNING'' (Some ''DISABLED'') start1
     \<and> state_change_at env
           (replay env (server w)
              ([Http (Get (url self))] @ stop1 @ stop2 @ [Sleep 5] @ disable @ [Sleep 5]
                 @ enable @ [Sleep 5] @ [Http (Get (url self))] @ start1))
           (url p2) ''RUNNING'' (Some ''DISABLED'') start2"
proof -
  let ?g = "[Http (Get (url self))]"
  obtain wa where ta: "trace wa = trace w" and sa: "server wa = server w"
    and r0: "(io_bind (stop_referencing_components env self) (\<lambda>_.
     io_bind (sleep env 5) (\<lambda>_.
     io_bind (ControllerService_disable env self) (\<lambda>_.
     io_bind (sleep env 5) (\<lambda>_.
     io_bind (ControllerService_enable env self) (\<lambda>_.
     io_bind (sleep env 5) (\<lambda>_.
     io_bind (start_referencing_components env self) (\<lambda>_.
     LOGGER_info (Info (''restart attempt of controller service '' @ str self
                        @ '' concluded.'')))))))))) wa = (Inr (), w')"
    using LOGGER_info_same [OF assms(1) [unfolded ControllerService_restart_def]] by blast
  obtain ys wb where stop: "stop_referencing_components env self wa = (Inr ys, wb)"
    and r1: "(io_bind (sleep env 5) (\<lambda>_.
     io_bind (ControllerService_disable env self) (\<lambda>_.
     io_bind (sleep env 5) (\<lambda>_.
     io_bind (ControllerService_enable env self) (\<lambda>_.
     io_bind (sleep env 5) (\<lambda>_.
     io_bind (start_referencing_components env self) (\<lambda>_.
     LOGGER_info (Info (''restart attempt of controller service '' @ str self
                        @ '' concluded.''))))))))) wb = (Inr (), w')"
    using io_bind_Inr [OF r0] by blast
  obtain wc where tc: "trace wc = trace wb @ [Sleep 5]"
    and sc: "server wc = replay env (server wb) [Sleep 5]"
    and r2: "(io_bind (ControllerService_disable env self) (\<lambda>_.
     io_bind (sleep env 5) (\<lambda>_.
     io_bind (ControllerService_enable env self) (\<lambda>_.
     io_bind (sleep env 5) (\<lambda>_.
     io_bind (start_referencing_components env self) (\<lambda>_.
     LOGGER_info (Info (''restart attempt of controller service '' @ str self
                        @ '' concluded.'')))))))) wc = (Inr (), w')"
    using sleep_settles [OF r1] by blast
  obtain wd where dis: "ControllerService_disable env self wc = (Inr (), wd)"
    and r3: "(io_bind (sleep env 5) (\<lambda>_.
     io_bind (ControllerService_enable env self) (\<lambda>_.
     io_bind (sleep env 5) (\<lambda>_.
     io_bind (start_referencing_components env self) (\<lambda>_.
     LOGGER_info (Info (''restart attempt of controller service '' @ str self
                        @ '' concluded.''))))))) wd = (Inr (), w')"
    using io_bind_Inr [OF r2] by auto
  obtain we where te: "trace we = trace wd @ [Sleep 5]"
    and se: "server we = replay env (server wd) [Sleep 5]"
    and r4: "(io_bind (ControllerService_enable env self) (\<lambda>_.
     io_bind (sleep env 5) (\<lambda>_.
     io_bind (start_referencing_components env self) (\<lambda>_.
     LOGGER_info (Info (''restart attempt of controller service '' @ str self
                        @ '' concluded.'')))))) we = (Inr (), w')"
    using sleep_settles [OF r3] by blast
  obtain wg where en: "ControllerService_enable env self we = (Inr (), wg)"
    and r5: "(io_bind (sleep env 5) (\<lambda>_.
     io_bind (start_referencing_components env self) (\<lambda>_.
     LOGGER_info (Info (''restart attempt of controller service '' @ str self
                        @ '' concluded.''))))) wg = (Inr (), w')"
    using io_bind_Inr [OF r4] by auto
  obtain wh where th: "trace wh = trace wg @ [Sleep 5]"
    and sh: "server wh = replay env (server wg) [Sleep 5]"
    and r6: "(io_bind (start_referencing_components env self) (\<lambda>_.
     LOGGER_info (Info (''restart attempt of controller service '' @ str self
                        @ '' concluded.'')))) wh = (Inr (), w')"
    using sleep_settles [OF r5] by blast
  obtain zs wi where start: "start_referencing_components env self wh = (Inr zs, wi)"
    and r7: "(LOGGER_info (Info (''restart attempt of controller service '' @ str self
                        @ '' concluded.''))) wi = (Inr (), w')"
    using io_bind_Inr [OF r6] by blast
  from r7 have ti: "trace w' = trace wi"
    by (auto simp: LOGGER_info_def)
  from referencing_phase_at [OF stop [unfolded stop_referencing_components_def
      ControllerService_get_referencing_components_def Processor_stop_def [abs_def]] assms(2)]
  obtain stop1 stop2 where
    p1: "trace wb = trace wa @ ?g @ stop1 @ stop2"
      "server wb = replay env (server wa) (?g @ stop1 @ stop2)"
      "state_change_at env (replay env (server wa) ?g)
         (url p1) ''STOPPED'' (Some ''DISABLED'') stop1"
      "state_change_at env (replay env (server wa) (?g @ stop1))
         (url p2) ''STOPPED'' (Some ''DISABLED'') stop2"
    by blast
  from logged_change_state_at [OF dis [unfolded ControllerService_disable_def]]
  obtain disable where
    p2: "trace wd = trace wc @ disable" "server wd = replay env (server wc) disable"
      "state_change_at env (server wc) (url self) ''DISABLED'' None disable"
    by blast
  from logged_change_state_at [OF en [unfolded ControllerService_enable_def]]
  obtain enable where
    p3: "trace wg = trace we @ enable" "server wg = replay env (server we) enable"
      "state_change_at env (server we) (url self) ''ENABLED'' None enable"
    by blast
  from referencing_phase_at [OF start [unfolded start_referencing_components_def
      ControllerService_get_referencing_components_def Processor_start_def [abs_def]] assms(2)]
  obtain start1 start2 where
    p4: "trace wi = trace wh @ ?g @ start1 @ start2"
      "state_change_at env (replay env (server wh) ?g)
         (url p1) ''RUNNING'' (Some ''DISABLED'') start1"
      "state_change_at env (replay env (server wh) (?g @ start1))
         (url p2) ''RUNNING'' (Some ''DISABLED'') start2"
    by blast
  have sc': "server wc = replay env (server w) (?g @ stop1 @ stop2 @ [Sleep 5])"
    by (simp only: sc p1(2) sa replay_append append_assoc)
  have se': "server we =
      replay env (server w) (?g @ stop1 @ stop2 @ [Sleep 5] @ disable @ [Sleep 5])"
    by (simp only: se p2(2) sc' replay_append append_assoc)
  have sh': "server wh =
      replay env (server w)
        (?g @ stop1 @ stop2 @ [Sleep 5] @ disable @ [Sleep 5] @ enable @ [Sleep 5])"
    by (simp only: sh p3(2) se' replay_append append_assoc)
  have tr: "trace w' =
       trace w @ ?g @ stop1 @ stop2 @ [Sleep 5] @ disable @ [Sleep 5]
         @ enable @ [Sleep 5] @ ?g @ start1 @ start2"
    by (simp add: ti p4(1) th p3(1) te p2(1) tc p1(1) ta)
  have c1: "state_change_at env (replay env (server w) ?g)
           (url p1) ''STOPPED'' (Some ''DISABLED'') stop1"
    using p1(3) by (simp only: sa)
  have c2: "state_change_at env (replay env (server w) (?g @ stop1))
           (url p2) ''STOPPED'' (Some ''DISABLED'') stop2"
    using p1(4) by (simp only: sa)
  have c3: "state_change_at env
           (replay env (server w) (?g @ stop1 @ stop2 @ [Sleep 5]))
           (url self) ''DISABLED'' None disable"
    using p2(3) by (simp only: sc')
  have c4: "state_change_at env
           (replay env (server w) (?g @ stop1 @ stop2 @ [Sleep 5] @ disable @ [Sleep 5]))
           (url self) ''ENABLED'' None enable"
    using p3(3) by (simp only: se')
  have c5: "state_change_at env
           (replay env (server w)
              (?g @ stop1 @ stop2 @ [Sleep 5] @ disable @ [Sleep 5] @ enable @ [Sleep 5] @ ?g))
           (url p1) ''RUNNING'' (Some ''DISABLED'') start1"
    using p4(2) by (simp only: sh' replay_append append_assoc)
  have c6: "state_change_at env
           (replay env (server w)
              (?g @ stop1 @ stop2 @ [Sleep 5] @ disable @ [Sleep 5] @ enable @ [Sleep 5] @ ?g
                 @ start1))
           (url p2) ''RUNNING'' (Some ''DISABLED'') start2"
    using p4(3) by (simp only: sh' replay_append append_assoc)
  from tr c1 c2 c3 c4 c5 c6 show ?thesis by blast
qed

theorem restart_order_witness:
  "trace (snd (ControllerService_restart nifi_env (test_service ''cs1'') nifi_world)) =
     [Http (Get ''http://nifi:8080/nifi-api/controller-services/cs1''),
      Http (Get ''http://nifi:8080/nifi-api/processors/p1''),
      Http (Post ''http://nifi:8080/nifi-api/processors/p1'' (Dumps (JObject
        [(''component'', JObject [(''id'', JString ''p1''), (''state'', JString ''STOPPED'')]),
         (''revision'', JObject [(''version'', JInt 1)])]))),
      Http (Get ''http://nifi:8080/nifi-api/processors/p2''),
      Sleep 5,
      Http (Get ''http://nifi:8080/nifi-api/controller-services/cs1''),
      Http (Post ''http://nifi:8080/nifi-api/controller-services/cs1'' (Dumps (JObject
        [(''component'', JObject [(''id'', JString ''cs1''), (''state'', JString ''DISABLED'')]),
         (''revision'', JObject [(''version'', JInt 2)])]))),
      Sleep 5,
      Http (Get ''http://nifi:8080/nifi-api/controller-services/cs1''),
      Http (Post ''http://nifi:8080/nifi-api/controller-services/cs1'' (Dumps (JObject
        [(''component'', JObject [(''id'', JString ''cs1''), (''state'', JString ''ENABLED'')]),
         (''revision'', JObject [(''version'', JInt 2)])]))),
      Sleep 5,
      Http (Get ''http://nifi:8080/nifi-api/controller-services/cs1''),
      Http (Get ''http://nifi:8080/nifi-api/processors/p1''),
      Http (Post ''http://nifi:8080/nifi-api/processors/p1'' (Dumps (JObject
        [(''component'', JObject [(''id'', JString ''p1''), (''state'', JString ''RUNNING'')]),
         (''revision'', JObject [(''version'', JInt 1)])]))),
      Http (Get ''http://nifi:8080/nifi-api/processors/p2'')]"
proof -
  have run: "ControllerService_restart nifi_env (test_service ''cs1'') nifi_world =
      (Inr (), snd (ControllerService_restart nifi_env (test_service ''cs1'') nifi_world))"
    using nifi_restart_returns [of nifi_world]
    by (cases "ControllerService_restart nifi_env (test_service ''cs1'') nifi_world") simp
  have refs: "\<forall>w0 ps.
      fst (get_referencing_components nifi_env (nifi_connection (test_service ''cs1''))
             (url (test_service ''cs1'')) w0) = Inr ps \<longrightarrow> ps = [test_p1, test_p2]"
    using nifi_references by (simp add: test_service_def)
  have u: "url (test_service ''cs1'') = ''http://nifi:8080/nifi-api/controller-services/cs1''"
    "url test_p1 = ''http://nifi:8080/nifi-api/processors/p1''"
    "url test_p2 = ''http://nifi:8080/nifi-api/processors/p2''"
    "trace nifi_world = []"
    by (simp_all add: test_service_def test_p1_def test_p2_def nifi_world_def)
  from restart_order [OF run refs] show ?thesis
    unfolding u nifi_state_change_at by auto
qed

end
